theory Spec2Isabelle
  imports Main "HOL-Library.AList"
begin

section \<open>Strings\<close>

text \<open>
  A JavaScript string is modelled as the list of its code units, restricted to the code
  units below 256 (\<^typ>\<open>char\<close>). The functions below are the String methods the gateway
  calls, with the names they have in the source.
\<close>

definition startsWith :: "string \<Rightarrow> string \<Rightarrow> bool" where
  "startsWith s p = (take (length p) s = p)"

definition endsWith :: "string \<Rightarrow> string \<Rightarrow> bool" where
  "endsWith s p = (length p \<le> length s \<and> drop (length s - length p) s = p)"

text \<open>\<open>s.includes(p)\<close>: \<open>p\<close> occurs in \<open>s\<close> at some position.\<close>

fun includes_str :: "string \<Rightarrow> string \<Rightarrow> bool" where
  "includes_str [] p = (p = [])"
| "includes_str (c # cs) p = (if startsWith (c # cs) p then True else includes_str cs p)"

text \<open>
  \<open>s.replace(p, r)\<close> with a string pattern: the first occurrence of \<open>p\<close> is replaced, the
  rest of the text is kept. (The replacement texts the gateway passes with a string
  pattern are empty, so the replacement patterns written with a dollar sign play no role.)
\<close>

fun replace_first :: "string \<Rightarrow> string \<Rightarrow> string \<Rightarrow> string" where
  "replace_first p r [] = (if p = [] then r else [])"
| "replace_first p r (c # cs) =
     (if startsWith (c # cs) p then r @ drop (length p) (c # cs)
      else c # replace_first p r cs)"

section \<open>Route resolver: the upstream URL\<close>

text \<open>
  \<^verbatim>\<open>buildUpstreamUrl(apiBase, clientPath)\<close>: one trailing slash of the base is removed;
  when the base then ends with \<open>/v1\<close>, the first \<open>/v1\<close> of a client path that starts
  with \<open>/v1\<close> is removed before the two are concatenated.
\<close>

definition buildUpstreamUrl :: "string \<Rightarrow> string \<Rightarrow> string" where
  "buildUpstreamUrl apiBase clientPath =
     (let apiBase = (if endsWith apiBase ''/'' then butlast apiBase else apiBase) in
      if endsWith apiBase ''/v1'' then
        (let pathWithoutV1 =
               (if startsWith clientPath ''/v1'' then replace_first ''/v1'' [] clientPath
                else clientPath)
         in apiBase @ pathWithoutV1)
      else apiBase @ clientPath)"

section \<open>JavaScript values\<close>

text \<open>
  Request and response bodies are values parsed from JSON, inspected by the gateway at run
  time (\<open>typeof\<close>, \<open>Array.isArray\<close>, property reads). Numbers are integers in the model:
  the numbers the gateway works with are counts and limits, and it passes every other
  number of a body on without reading it. An
  object is the list of its fields in insertion order, read with \<^const>\<open>map_of\<close>.
\<close>

datatype jsval =
    JUndefined
  | JNull
  | JBool bool
  | JNum int
  | JStr string
  | JArr "jsval list"
  | JObj "(string \<times> jsval) list"

datatype js_error = TypeError

text \<open>
  \<open>v.k\<close>: reading a property of \<open>undefined\<close> or \<open>null\<close> throws a TypeError; a missing
  property reads as \<open>undefined\<close>. The keys the gateway reads (\<open>messages\<close>, \<open>role\<close>,
  \<open>content\<close>, \<open>type\<close>, \<open>model\<close>, \<open>system\<close>) are not properties of strings, numbers,
  booleans or arrays, nor of the object prototype.
\<close>

fun get_prop :: "jsval \<Rightarrow> string \<Rightarrow> js_error + jsval" where
  "get_prop JUndefined k = Inl TypeError"
| "get_prop JNull k = Inl TypeError"
| "get_prop (JObj fs) k = Inr (case map_of fs k of None \<Rightarrow> JUndefined | Some v \<Rightarrow> v)"
| "get_prop v k = Inr JUndefined"

text \<open>\<open>v?.k\<close>: as \<open>v.k\<close>, but \<open>undefined\<close> when \<open>v\<close> is \<open>undefined\<close> or \<open>null\<close>.\<close>

fun opt_prop :: "jsval \<Rightarrow> string \<Rightarrow> jsval" where
  "opt_prop (JObj fs) k = (case map_of fs k of None \<Rightarrow> JUndefined | Some v \<Rightarrow> v)"
| "opt_prop v k = JUndefined"

text \<open>\<open>k in v\<close>: a TypeError unless \<open>v\<close> is an object or an array.\<close>

fun has_prop :: "string \<Rightarrow> jsval \<Rightarrow> js_error + bool" where
  "has_prop k (JObj fs) = Inr (map_of fs k \<noteq> None)"
| "has_prop k (JArr xs) = Inr False"
| "has_prop k v = Inl TypeError"

text \<open>
  \<open>v.k = x\<close>: the field is overwritten where it stands, or added after the others. The
  gateway assigns only to a request body that has passed the model check, which is an
  object; an assignment to anything else is reported as a TypeError.
\<close>

fun set_prop :: "jsval \<Rightarrow> string \<Rightarrow> jsval \<Rightarrow> js_error + jsval" where
  "set_prop (JObj fs) k x = Inr (JObj (AList.update k x fs))"
| "set_prop v k x = Inl TypeError"

text \<open>\<open>xs.some(x => x.k === lit)\<close>, which stops at the first hit and throws where \<open>x.k\<close> does.\<close>

fun some_prop_is :: "string \<Rightarrow> string \<Rightarrow> jsval list \<Rightarrow> js_error + bool" where
  "some_prop_is k lit [] = Inr False"
| "some_prop_is k lit (x # xs) =
     (case get_prop x k of
        Inl e \<Rightarrow> Inl e
      | Inr v \<Rightarrow> if v = JStr lit then Inr True else some_prop_is k lit xs)"

text \<open>\<open>xs[xs.length - 1]\<close>, which is \<open>undefined\<close> for the empty array.\<close>

definition last_entry :: "jsval list \<Rightarrow> jsval" where
  "last_entry xs = (if xs = [] then JUndefined else last xs)"

subsection \<open>Numbers and values in template literals\<close>

function show_nat :: "nat \<Rightarrow> string" where
  "show_nat n =
     (if n < 10 then [''0123456789'' ! n]
      else show_nat (n div 10) @ [''0123456789'' ! (n mod 10)])"
  by pat_completeness auto
termination
  by (relation "measure (\<lambda>n. n)") auto

definition show_int :: "int \<Rightarrow> string" where
  "show_int i = (if i < 0 then CHR ''-'' # show_nat (nat (- i)) else show_nat (nat i))"

fun join :: "string \<Rightarrow> string list \<Rightarrow> string" where
  "join sep [] = []"
| "join sep [x] = x"
| "join sep (x # y # ys) = x @ sep @ join sep (y # ys)"

fun toString :: "jsval \<Rightarrow> string" where
  "toString JUndefined = ''undefined''"
| "toString JNull = ''null''"
| "toString (JBool b) = (if b then ''true'' else ''false'')"
| "toString (JNum n) = show_int n"
| "toString (JStr s) = s"
| "toString (JArr xs) =
     join '','' (map (\<lambda>x. if x = JUndefined \<or> x = JNull then [] else toString x) xs)"
| "toString (JObj fs) = ''[object Object]''"

subsection \<open>Truthiness of optional strings\<close>

text \<open>\<open>a || b\<close> on strings that may be \<open>undefined\<close>: the empty string is falsy too.\<close>

definition truthy :: "string option \<Rightarrow> bool" where
  "truthy a = (case a of None \<Rightarrow> False | Some s \<Rightarrow> s \<noteq> [])"

definition or_str :: "string option \<Rightarrow> string option \<Rightarrow> string option" where
  "or_str a b = (if truthy a then a else b)"

definition or_default :: "string option \<Rightarrow> string \<Rightarrow> string" where
  "or_default a d = (case a of None \<Rightarrow> d | Some s \<Rightarrow> if s = [] then d else s)"

section \<open>The stores\<close>

text \<open>
  Modelled from the spec: the declarations of \<open>RedisKeyData\<close>, \<open>ModelConfig\<close> and
  \<open>APIProfile\<close> (module \<open>./types\<close>) are not among the sources; the fields are those of
  section 3 of the specification and those the code reads. A stored key record is a JSON
  object whose fields may be absent (\<open>None\<close>); besides the fields of the current schema it
  may carry the counts of the earlier schemas. Numbers are integers, and the arithmetic
  on them is exact, as it is in JavaScript for integers of magnitude below \<open>2\<^sup>5\<^sup>3\<close>.
\<close>

record usage =
  date :: string
  count :: int

record stored_key =
  expiry :: "string option"
  daily_limit :: "int option"
  usage_today :: "usage option"
  session_timeout_minutes :: "int option"
  selected_model :: "string option"
  selected_api_profile_id :: "string option"
  max_concurrent_users :: "int option"
  max_activations :: "int option"
  max_ips :: "int option"

record ModelConfig =
  id_mc :: string
  name_mc :: string
  system_prompt_mc :: string

record APIProfile =
  id_p :: string
  name_p :: string
  api_url_p :: string
  api_key_p :: string
  speed :: string
  is_active :: bool
  capabilities :: "string list"
  description :: string
  model_actual_p :: "string option"

record ProxySettings =
  api_url :: string
  api_key :: string
  model_display :: string
  model_actual :: string
  system_prompt :: "string option"
  models :: "(string \<rightharpoonup> ModelConfig) option"

text \<open>
  The Redis database: the key records by key name, the settings record (stored under
  \<open>__proxy_settings__\<close>) and the profile table (stored under \<open>__api_profiles__\<close>).
  \<open>redis.get\<close> and \<open>redis.set\<close> are reads and whole-record writes of this state; the
  store itself is taken to answer every call, and no key has one of the two reserved
  names.
\<close>

record redis =
  keys :: "string \<rightharpoonup> stored_key"
  settings :: "ProxySettings option"
  profiles :: "string \<rightharpoonup> APIProfile"

subsection \<open>Key records\<close>

text \<open>
  \<^verbatim>\<open>getKeyData(key)\<close>, with the current UTC date \<open>today\<close> as first argument. A record of the
  current schema has its usage reset when its date is not today's; any other record is
  migrated. Both write the record back before returning it.
\<close>

definition getKeyData :: "string \<Rightarrow> string \<Rightarrow> redis \<Rightarrow> redis \<times> stored_key option" where
  "getKeyData today key r =
     (case keys r key of
        None \<Rightarrow> (r, None)
      | Some data \<Rightarrow>
          if daily_limit data \<noteq> None \<and> usage_today data \<noteq> None then
            (if map_option date (usage_today data) \<noteq> Some today then
               (let data = data\<lparr>usage_today := Some \<lparr>date = today, count = 0\<rparr>\<rparr>
                in (r\<lparr>keys := (keys r)(key \<mapsto> data)\<rparr>, Some data))
             else (r, Some data))
          else
            (let dailyLimit =
                   (case max_concurrent_users data of
                      Some n \<Rightarrow> n * 50
                    | None \<Rightarrow>
                        (case max_activations data of
                           Some n \<Rightarrow> n * 50
                         | None \<Rightarrow>
                             (case max_ips data of
                                Some n \<Rightarrow> n * 50
                              | None \<Rightarrow> 100)));
                 newData =
                   \<lparr>expiry = expiry data,
                    daily_limit = Some dailyLimit,
                    usage_today = Some \<lparr>date = today, count = 0\<rparr>,
                    session_timeout_minutes = Some 15,
                    selected_model = None,
                    selected_api_profile_id = None,
                    max_concurrent_users = None,
                    max_activations = None,
                    max_ips = None\<rparr>
             in (r\<lparr>keys := (keys r)(key \<mapsto> newData)\<rparr>, Some newData)))"

text \<open>\<^verbatim>\<open>createKey(keyName, expiry, dailyLimit)\<close>.\<close>

definition createKey :: "string \<Rightarrow> string \<Rightarrow> string \<Rightarrow> int \<Rightarrow> redis \<Rightarrow> redis" where
  "createKey today keyName expiry_date dailyLimit r =
     r\<lparr>keys := (keys r)(keyName \<mapsto>
          \<lparr>expiry = Some expiry_date,
           daily_limit = Some dailyLimit,
           usage_today = Some \<lparr>date = today, count = 0\<rparr>,
           session_timeout_minutes = Some 15,
           selected_model = None,
           selected_api_profile_id = None,
           max_concurrent_users = None,
           max_activations = None,
           max_ips = None\<rparr>)\<rparr>"

record usage_result =
  allowed :: bool
  currentUsage :: int
  limit :: "int option"
  reason :: "string option"

text \<open>
  \<^verbatim>\<open>incrementUsage(keyName)\<close> is written in two parts, split at the point where the
  source waits for \<open>getKeyData\<close>: the check and the write work on the record that was
  fetched. A comparison with an absent limit is false, and reading the count of an absent
  \<open>usage_today\<close> throws, which the function answers with \<open>server_error\<close>.
\<close>

definition check_and_increment ::
    "string \<Rightarrow> stored_key option \<Rightarrow> redis \<Rightarrow> redis \<times> usage_result" where
  "check_and_increment keyName fetched r =
     (case fetched of
        None \<Rightarrow>
          (r, \<lparr>allowed = False, currentUsage = 0, limit = Some 0, reason = Some ''invalid_key''\<rparr>)
      | Some data \<Rightarrow>
          (case usage_today data of
             None \<Rightarrow>
               (r, \<lparr>allowed = False, currentUsage = 0, limit = Some 0,
                    reason = Some ''server_error''\<rparr>)
           | Some u \<Rightarrow>
               if (case daily_limit data of None \<Rightarrow> False | Some l \<Rightarrow> count u \<ge> l) then
                 (r, \<lparr>allowed = False, currentUsage = count u, limit = daily_limit data,
                      reason = Some ''daily_limit_reached''\<rparr>)
               else
                 (let data = data\<lparr>usage_today := Some (u\<lparr>count := count u + 1\<rparr>)\<rparr>
                  in (r\<lparr>keys := (keys r)(keyName \<mapsto> data)\<rparr>,
                      \<lparr>allowed = True, currentUsage = count u + 1, limit = daily_limit data,
                       reason = None\<rparr>))))"

definition incrementUsage :: "string \<Rightarrow> string \<Rightarrow> redis \<Rightarrow> redis \<times> usage_result" where
  "incrementUsage today keyName r =
     (case getKeyData today keyName r of (r1, fetched) \<Rightarrow> check_and_increment keyName fetched r1)"

subsection \<open>Requests that overlap in time\<close>

text \<open>
  Invocations of the gateway share nothing but the store, and each call of the store is
  one step. An invocation of \<open>incrementUsage\<close> is \<open>Pending\<close> before its \<open>getKeyData\<close>,
  holds the fetched record until its check and write, and is \<open>Finished\<close> with its result.
  A schedule names, step by step, the invocation that moves next.
\<close>

datatype invocation = Pending | Fetched "stored_key option" | Finished usage_result

definition step_invocation ::
    "string \<Rightarrow> string \<Rightarrow> nat \<Rightarrow> redis \<times> invocation list \<Rightarrow> redis \<times> invocation list" where
  "step_invocation today keyName i s =
     (case s of (r, invs) \<Rightarrow>
        if i < length invs then
          (case invs ! i of
             Pending \<Rightarrow>
               (case getKeyData today keyName r of (r1, fetched) \<Rightarrow> (r1, invs[i := Fetched fetched]))
           | Fetched fetched \<Rightarrow>
               (case check_and_increment keyName fetched r of
                  (r1, res) \<Rightarrow> (r1, invs[i := Finished res]))
           | Finished res \<Rightarrow> (r, invs))
        else (r, invs))"

definition run_schedule ::
    "string \<Rightarrow> string \<Rightarrow> nat list \<Rightarrow> redis \<times> invocation list \<Rightarrow> redis \<times> invocation list" where
  "run_schedule today keyName sched s = foldl (\<lambda>s i. step_invocation today keyName i s) s sched"

fun admitted :: "invocation \<Rightarrow> bool" where
  "admitted (Finished res) = allowed res"
| "admitted other = False"

text \<open>\<open>n\<close> invocations of \<open>incrementUsage\<close>, one after the other; the results in order.\<close>

fun run_sequential :: "string \<Rightarrow> string \<Rightarrow> nat \<Rightarrow> redis \<Rightarrow> redis \<times> usage_result list" where
  "run_sequential today keyName 0 r = (r, [])"
| "run_sequential today keyName (Suc n) r =
     (case incrementUsage today keyName r of
        (r1, res) \<Rightarrow>
          (case run_sequential today keyName n r1 of (r2, ress) \<Rightarrow> (r2, res # ress)))"

section \<open>The proxy handler\<close>

text \<open>
  A stage of the handler either goes on with a value, answers the request with a status
  and a JSON body, or throws; what is thrown reaches the handler's outer \<open>catch\<close>, which
  answers with status 500.
\<close>

datatype stop = Reply nat jsval | Thrown js_error

subsection \<open>Quota enforcer\<close>

text \<open>
  Lines 98 to 125 of the handler: whether the request carries a new user message. The
  last entry of \<open>messages\<close> must have the role \<open>user\<close>; string content counts, an array
  counts unless one of its blocks has the type \<open>tool_result\<close>, and any other content
  counts unless its own type is \<open>tool_result\<close>.
\<close>

definition hasNewUserMessage :: "jsval \<Rightarrow> js_error + bool" where
  "hasNewUserMessage requestBody =
     (case get_prop requestBody ''messages'' of
        Inl e \<Rightarrow> Inl e
      | Inr messages \<Rightarrow>
          (case messages of
             JArr ms \<Rightarrow>
               (let lastMessage = last_entry ms in
                if opt_prop lastMessage ''role'' = JStr ''user'' then
                  (case get_prop lastMessage ''content'' of
                     Inl e \<Rightarrow> Inl e
                   | Inr content \<Rightarrow>
                       (case content of
                          JStr s \<Rightarrow> Inr True
                        | JArr blocks \<Rightarrow>
                            (case some_prop_is ''type'' ''tool_result'' blocks of
                               Inl e \<Rightarrow> Inl e
                             | Inr hasToolResult \<Rightarrow> Inr (\<not> hasToolResult))
                        | other \<Rightarrow> Inr (opt_prop content ''type'' \<noteq> JStr ''tool_result'')))
                else Inr False)
           | other \<Rightarrow> Inr False))"

text \<open>
  Lines 136 to 163: the usage is incremented for a new user message only; a refusal is
  answered with status 429. A number that is \<open>undefined\<close> prints as such.
\<close>

definition num_or_undefined :: "int option \<Rightarrow> jsval" where
  "num_or_undefined n = (case n of None \<Rightarrow> JUndefined | Some i \<Rightarrow> JNum i)"

definition quota_stage ::
    "string \<Rightarrow> string \<Rightarrow> stored_key \<Rightarrow> bool \<Rightarrow> redis \<Rightarrow> redis \<times> (stop + usage_result)" where
  "quota_stage today userToken keyData countable r =
     (if countable then
        (case incrementUsage today userToken r of
           (r1, usageResult) \<Rightarrow>
             if \<not> allowed usageResult then
               (r1, Inl (Reply 429 (JObj
                  [(''error'', JStr ''Daily limit reached''),
                   (''message'', JStr (''This key has reached its daily limit of ''
                      @ toString (num_or_undefined (limit usageResult))
                      @ '' requests. Please try again tomorrow.'')),
                   (''current_usage'', JNum (currentUsage usageResult)),
                   (''daily_limit'', num_or_undefined (limit usageResult))])))
             else (r1, Inr usageResult))
      else (r, Inr \<lparr>allowed = True, currentUsage = 0, limit = daily_limit keyData, reason = None\<rparr>))"

subsection \<open>Route resolver\<close>

definition DEFAULT_API_BASE :: string where
  "DEFAULT_API_BASE = ''https://code.newcli.com/claude/droid/v1''"

definition getSettings :: "redis \<Rightarrow> ProxySettings option" where
  "getSettings r = settings r"

definition getAPIProfile :: "string \<Rightarrow> redis \<Rightarrow> APIProfile option" where
  "getAPIProfile profileId r = profiles r profileId"

record route =
  apiBase :: string
  apiKey :: "string option"
  profileModelActual :: "string option"

text \<open>
  Lines 179 to 198: the base URL and the credential of the global settings (or the default
  base and the key of the environment), overridden by the selected profile when it exists
  and is active.
\<close>

definition resolve_route :: "string option \<Rightarrow> ProxySettings option \<Rightarrow> stored_key \<Rightarrow> redis \<Rightarrow> route" where
  "resolve_route API_KEY_GOC settings0 keyData r =
     (let global =
            \<lparr>apiBase = or_default (map_option api_url settings0) DEFAULT_API_BASE,
             apiKey = or_str (map_option api_key settings0) API_KEY_GOC,
             profileModelActual = None\<rparr>
      in case selected_api_profile_id keyData of
           None \<Rightarrow> global
         | Some profileId \<Rightarrow>
             if profileId = [] then global
             else
               (case getAPIProfile profileId r of
                  Some profile \<Rightarrow>
                    if is_active profile then
                      \<lparr>apiBase = api_url_p profile,
                       apiKey = Some (api_key_p profile),
                       profileModelActual = model_actual_p profile\<rparr>
                    else global
                | None \<Rightarrow> global))"

subsection \<open>Model policy\<close>

definition resolve_modelDisplay :: "ProxySettings option \<Rightarrow> string" where
  "resolve_modelDisplay settings0 =
     or_default (map_option model_display settings0) ''Claude-Opus-4.5-VIP''"

definition resolve_modelActual :: "ProxySettings option \<Rightarrow> string option \<Rightarrow> string" where
  "resolve_modelActual settings0 profileModelActual0 =
     or_default (or_str profileModelActual0 (map_option model_actual settings0))
       ''claude-haiku-4-5-20251001''"

text \<open>
  Lines 219 to 246: the request is refused with status 400 unless its \<open>model\<close> is the
  display name; otherwise the \<open>model\<close> of the body becomes the actual model id.
\<close>

definition model_stage :: "ProxySettings option \<Rightarrow> string option \<Rightarrow> jsval \<Rightarrow> stop + jsval" where
  "model_stage settings0 profileModelActual0 requestBody =
     (let modelDisplay = resolve_modelDisplay settings0;
          modelActual = resolve_modelActual settings0 profileModelActual0
      in case get_prop requestBody ''model'' of
           Inl e \<Rightarrow> Inl (Thrown e)
         | Inr requested \<Rightarrow>
             if requested \<noteq> JStr modelDisplay then
               Inl (Reply 400 (JObj
                 [(''error'', JStr ''Invalid model''),
                  (''message'', JStr (''Model '' @ [CHR 0x22] @ toString requested @ [CHR 0x22]
                     @ '' is not available. Please use '' @ [CHR 0x22] @ modelDisplay
                     @ [CHR 0x22] @ ''.'')),
                  (''type'', JStr ''invalid_request_error'')]))
             else
               (case set_prop requestBody ''model'' (JStr modelActual) of
                  Inl e \<Rightarrow> Inl (Thrown e)
                | Inr b \<Rightarrow> Inr b))"

subsection \<open>Prompt injector\<close>

text \<open>
  Lines 252 to 269: the prompt of the model configuration selected by the key, when there
  is one, else the prompt of the global settings.
\<close>

definition select_system_prompt :: "ProxySettings option \<Rightarrow> stored_key \<Rightarrow> string option" where
  "select_system_prompt settings0 keyData =
     (case settings0 of
        None \<Rightarrow> None
      | Some s \<Rightarrow>
          (case selected_model keyData of
             None \<Rightarrow> system_prompt s
           | Some keySelectedModel \<Rightarrow>
               if keySelectedModel = [] then system_prompt s
               else
                 (case models s of
                    None \<Rightarrow> system_prompt s
                  | Some ms \<Rightarrow>
                      (case ms keySelectedModel of
                         None \<Rightarrow> system_prompt s
                       | Some modelConfig \<Rightarrow> Some (system_prompt_mc modelConfig)))))"

text \<open>
  \<open>s.trim()\<close> removes the white space and the line terminators at both ends; among the code
  units below 256 these are tab, line feed, vertical tab, form feed, carriage return,
  space and the no-break space.
\<close>

definition js_space :: "char \<Rightarrow> bool" where
  "js_space c = (c \<in> set [CHR 0x09, CHR 0x0A, CHR 0x0B, CHR 0x0C, CHR 0x0D, CHR 0x20, CHR 0xA0])"

definition trim :: "string \<Rightarrow> string" where
  "trim s = rev (dropWhile js_space (rev (dropWhile js_space s)))"

definition MAX_SYSTEM_PROMPT_LENGTH :: nat where
  "MAX_SYSTEM_PROMPT_LENGTH = 10000"

text \<open>
  Lines 272 to 296. The result is the value of \<open>systemPrompt\<close> afterwards: \<open>None\<close> stands
  for \<open>undefined\<close>; an empty string is left as it is and is skipped by the test that
  follows.
\<close>

definition sanitize :: "string option \<Rightarrow> string option" where
  "sanitize systemPrompt =
     (case systemPrompt of
        None \<Rightarrow> None
      | Some s \<Rightarrow>
          if s = [] then Some s
          else
            (let t = trim s in
             if t = [] then None
             else if length t > MAX_SYSTEM_PROMPT_LENGTH then Some (take MAX_SYSTEM_PROMPT_LENGTH t)
             else Some t))"

text \<open>
  The debug line of the single-system-field branch prints a preview of the field that is
  being replaced: the field itself when it is a string, else
  \<^verbatim>\<open>JSON.stringify(existingSystem).substring(0, 100)\<close>. \<open>JSON.stringify(undefined)\<close> is
  \<open>undefined\<close>, so the preview of an absent field throws a TypeError. Only whether the
  preview can be computed matters here.
\<close>

definition system_preview :: "jsval \<Rightarrow> js_error + unit" where
  "system_preview existingSystem =
     (case existingSystem of JUndefined \<Rightarrow> Inl TypeError | other \<Rightarrow> Inr ())"

text \<open>\<open>messages.map(msg => msg.role === 'system' ? {role: 'system', content: p} : msg)\<close>.\<close>

fun replace_system_messages :: "string \<Rightarrow> jsval list \<Rightarrow> js_error + jsval list" where
  "replace_system_messages p [] = Inr []"
| "replace_system_messages p (msg # msgs) =
     (case get_prop msg ''role'' of
        Inl e \<Rightarrow> Inl e
      | Inr role \<Rightarrow>
          (case replace_system_messages p msgs of
             Inl e \<Rightarrow> Inl e
           | Inr msgs' \<Rightarrow>
               Inr ((if role = JStr ''system''
                     then JObj [(''role'', JStr ''system''), (''content'', JStr p)]
                     else msg) # msgs')))"

text \<open>Lines 298 to 340.\<close>

definition inject_system_prompt :: "string \<Rightarrow> string option \<Rightarrow> jsval \<Rightarrow> js_error + jsval" where
  "inject_system_prompt clientPath systemPrompt requestBody =
     (case systemPrompt of
        None \<Rightarrow> Inr requestBody
      | Some p \<Rightarrow>
          if p = [] then Inr requestBody
          else
            (case has_prop ''system'' requestBody of
               Inl e \<Rightarrow> Inl e
             | Inr hasSystem \<Rightarrow>
                 if hasSystem \<or> includes_str clientPath ''/messages'' then
                   (case get_prop requestBody ''system'' of
                      Inl e \<Rightarrow> Inl e
                    | Inr existingSystem \<Rightarrow>
                        (case system_preview existingSystem of
                           Inl e \<Rightarrow> Inl e
                         | Inr u \<Rightarrow> set_prop requestBody ''system'' (JStr p)))
                 else
                   (case get_prop requestBody ''messages'' of
                      Inl e \<Rightarrow> Inl e
                    | Inr messages \<Rightarrow>
                        (case messages of
                           JArr ms \<Rightarrow>
                             (case some_prop_is ''role'' ''system'' ms of
                                Inl e \<Rightarrow> Inl e
                              | Inr hasSystemMessage \<Rightarrow>
                                  if hasSystemMessage then
                                    (case replace_system_messages p ms of
                                       Inl e \<Rightarrow> Inl e
                                     | Inr ms' \<Rightarrow> set_prop requestBody ''messages'' (JArr ms'))
                                  else
                                    set_prop requestBody ''messages''
                                      (JArr (JObj [(''role'', JStr ''system''),
                                                   (''content'', JStr p)] # ms)))
                         | other \<Rightarrow> Inr requestBody))))"

subsection \<open>The handler up to the upstream call\<close>

record request =
  http_method :: string
  url :: "string option"
  authorization :: "string option"
  body :: jsval

text \<open>What the handler forwards, and the two model names the relay needs afterwards.\<close>

record outbound =
  apiUrl :: string
  bearer :: string
  payload :: jsval
  modelDisplay_of :: string
  modelActual_of :: string

text \<open>
  \<^verbatim>\<open>handler(req, res)\<close> of the proxy, lines 40 to 340. \<open>isExpired\<close> depends on the clock and
  the time zone of the process and is a parameter, as are the current UTC date \<open>today\<close>
  and the variable \<open>API_KEY_GOC\<close> of the environment. \<open>Thrown\<close> marks an exception that
  the outer \<open>catch\<close> answers with status 500. The writes to the store made before a refusal
  stay.
\<close>

definition handler ::
    "(string option \<Rightarrow> bool) \<Rightarrow> string \<Rightarrow> string option \<Rightarrow> request \<Rightarrow> redis
       \<Rightarrow> redis \<times> (stop + outbound)" where
  "handler isExpired today API_KEY_GOC req r =
     (if http_method req = ''OPTIONS'' then (r, Inl (Reply 200 JUndefined))
      else if http_method req \<noteq> ''POST'' then
        (r, Inl (Reply 405 (JObj [(''error'', JStr ''Method not allowed'')])))
      else
        (let clientPath = or_default (url req) ''/v1/chat/completions'' in
         if \<not> truthy (authorization req)
            \<or> \<not> startsWith (or_default (authorization req) []) ''Bearer '' then
           (r, Inl (Reply 401 (JObj [(''error'', JStr ''Missing or invalid Authorization header'')])))
         else
           (let userToken = replace_first ''Bearer '' [] (or_default (authorization req) []) in
            case getKeyData today userToken r of
              (r1, None) \<Rightarrow> (r1, Inl (Reply 401 (JObj [(''error'', JStr ''Invalid API key'')])))
            | (r1, Some keyData) \<Rightarrow>
                if isExpired (expiry keyData) then
                  (r1, Inl (Reply 403 (JObj [(''error'', JStr ''API key has expired'')])))
                else
                  (case hasNewUserMessage (body req) of
                     Inl e \<Rightarrow> (r1, Inl (Thrown e))
                   | Inr countable \<Rightarrow>
                       (case quota_stage today userToken keyData countable r1 of
                          (r2, Inl refusal) \<Rightarrow> (r2, Inl refusal)
                        | (r2, Inr usageResult) \<Rightarrow>
                            (let settings0 = getSettings r2;
                                 rt = resolve_route API_KEY_GOC settings0 keyData r2;
                                 upstream = buildUpstreamUrl (apiBase rt) clientPath
                             in if \<not> truthy (apiKey rt) then
                                  (r2, Inl (Reply 500 (JObj
                                     [(''error'', JStr ''API Key not configured''),
                                      (''message'',
                                       JStr ''Please configure API Key in Admin Panel Settings'')])))
                                else
                                  (case model_stage settings0 (profileModelActual rt) (body req) of
                                     Inl s \<Rightarrow> (r2, Inl s)
                                   | Inr requestBody \<Rightarrow>
                                       (case inject_system_prompt clientPath
                                               (sanitize (select_system_prompt settings0 keyData))
                                               requestBody of
                                          Inl e \<Rightarrow> (r2, Inl (Thrown e))
                                        | Inr requestBody \<Rightarrow>
                                            (r2, Inr
                                               \<lparr>apiUrl = upstream,
                                                bearer = or_default (apiKey rt) [],
                                                payload = requestBody,
                                                modelDisplay_of = resolve_modelDisplay settings0,
                                                modelActual_of =
                                                  resolve_modelActual settings0
                                                    (profileModelActual rt)\<rparr>)))))))))"

subsection \<open>Stream relay: the reverse rewrite\<close>

text \<open>
  \<open>text.replace(/p/g, r)\<close> for a pattern \<open>p\<close> that is plain text: the occurrences of \<open>p\<close> are
  found from left to right, each search starting behind the occurrence before it. The
  empty pattern matches before every code unit and at the end.
\<close>

function replaceAll :: "string \<Rightarrow> string \<Rightarrow> string \<Rightarrow> string" where
  "replaceAll p r t =
     (if p = [] then r @ concat (map (\<lambda>c. c # r) t)
      else if t = [] then []
      else if startsWith t p then r @ replaceAll p r (drop (length p) t)
      else hd t # replaceAll p r (tl t))"
  by pat_completeness auto
termination
  by (relation "measure (\<lambda>(p, r, t). length t)") auto

text \<open>
  \<open>new RegExp(modelActual, 'g')\<close> reads the model id as a regular expression and
  \<open>replace\<close> reads a dollar sign in the replacement as a pattern. The model covers the
  plain case: an id without a character that is special in a regular expression and a
  display name without a dollar sign. Outside it the result is \<open>None\<close>.
\<close>

definition regex_special :: "char list" where
  "regex_special = CHR 0x5C # ''^$.*+?()[]{}|''"

definition plain_pattern :: "string \<Rightarrow> bool" where
  "plain_pattern p = list_all (\<lambda>c. c \<notin> set regex_special) p"

definition plain_replacement :: "string \<Rightarrow> bool" where
  "plain_replacement r = (CHR ''$'' \<notin> set r)"

text \<open>Lines 467 to 476 and 521 to 527: the six replacements, in the order of the source.\<close>

definition rewrite :: "string \<Rightarrow> string \<Rightarrow> string \<Rightarrow> string option" where
  "rewrite modelActual modelDisplay chunk =
     (if plain_pattern modelActual \<and> plain_replacement modelDisplay then
        Some (replaceAll ''4.5 Sonnet'' ''4.5 Opus''
               (replaceAll ''Sonnet'' ''Opus''
                 (replaceAll ''Haiku'' ''Opus''
                   (replaceAll ''claude-3-5-haiku'' modelDisplay
                     (replaceAll ''Claude Code'' ''Claude Opus''
                       (replaceAll modelActual modelDisplay chunk))))))
      else None)"

text \<open>
  The streaming loop, lines 434 to 485. Each entry of the upstream is a decoded chunk,
  paired with whether the client has disconnected when the loop comes round to it; the
  result is the list of the chunks written to the client. The loop stops at the first
  entry that finds the client gone, and at the end of the upstream.
\<close>

fun stream_relay :: "string \<Rightarrow> string \<Rightarrow> (bool \<times> string) list \<Rightarrow> string list option" where
  "stream_relay modelActual modelDisplay [] = Some []"
| "stream_relay modelActual modelDisplay ((clientDisconnected, chunk) # rest) =
     (if clientDisconnected then Some []
      else
        (case rewrite modelActual modelDisplay chunk of
           None \<Rightarrow> None
         | Some out \<Rightarrow>
             (case stream_relay modelActual modelDisplay rest of
                None \<Rightarrow> None
              | Some outs \<Rightarrow> Some (out # outs))))"

text \<open>
  The buffered response, lines 520 to 528: the rewrite is applied to the text that
  \<open>JSON.stringify\<close> makes of the upstream body, before that text is parsed again.
\<close>

definition buffered_relay :: "string \<Rightarrow> string \<Rightarrow> string \<Rightarrow> string option" where
  "buffered_relay modelActual modelDisplay serialized = rewrite modelActual modelDisplay serialized"

section \<open>Saving the settings\<close>

text \<open>\<^verbatim>\<open>saveSettings(apiUrl, apiKey, modelDisplay, modelActual, systemPrompt)\<close>.\<close>

definition saveSettings ::
    "string \<Rightarrow> string \<Rightarrow> string option \<Rightarrow> string option \<Rightarrow> string option \<Rightarrow> redis \<Rightarrow> redis \<times> bool" where
  "saveSettings apiUrl0 apiKey0 modelDisplay modelActual systemPrompt r =
     (let existing = getSettings r;
          new_settings =
            \<lparr>api_url = apiUrl0,
             api_key = apiKey0,
             model_display =
               or_default (or_str modelDisplay (map_option model_display existing))
                 ''Claude-Opus-4.5-VIP'',
             model_actual =
               or_default (or_str modelActual (map_option model_actual existing))
                 ''claude-3-5-haiku-20241022'',
             system_prompt =
               Some (case systemPrompt of
                       Some s \<Rightarrow> s
                     | None \<Rightarrow> or_default (Option.bind existing system_prompt) []),
             models =
               Some (case Option.bind existing models of Some m \<Rightarrow> m | None \<Rightarrow> Map.empty)\<rparr>
      in (r\<lparr>settings := Some new_settings\<rparr>, True))"

text \<open>
  The body of a save request. \<open>api_url\<close> and \<open>api_key\<close> are checked by the handler and are
  any JSON value; the three optional fields are passed on as they come and are typed by
  the signature of \<open>saveSettings\<close>.
\<close>

record save_body =
  api_url_b :: jsval
  api_key_b :: jsval
  model_display_b :: "string option"
  model_actual_b :: "string option"
  system_prompt_b :: "string option"

record save_request =
  save_method :: string
  save_authorization :: "string option"
  save_body :: save_body

text \<open>
  The handler of \<^verbatim>\<open>api/admin/settings/save.ts\<close>. \<open>verifyToken\<close> (module \<open>lib/auth\<close>) and
  whether \<open>new URL(api_url)\<close> accepts a text are parameters.
\<close>

definition save_handler ::
    "(string \<Rightarrow> bool) \<Rightarrow> (string \<Rightarrow> bool) \<Rightarrow> save_request \<Rightarrow> redis \<Rightarrow> redis \<times> nat \<times> jsval" where
  "save_handler verifyToken valid_url req r =
     (if save_method req \<noteq> ''POST'' then
        (r, 405, JObj [(''error'', JStr ''Method not allowed'')])
      else if \<not> truthy (save_authorization req)
              \<or> \<not> startsWith (or_default (save_authorization req) []) ''Bearer '' then
        (r, 401, JObj [(''error'', JStr ''Missing authorization header'')])
      else if \<not> verifyToken (replace_first ''Bearer '' [] (or_default (save_authorization req) []))
      then (r, 401, JObj [(''error'', JStr ''Invalid or expired token'')])
      else
        (case api_url_b (save_body req) of
           JStr u \<Rightarrow>
             if u = [] then (r, 400, JObj [(''error'', JStr ''API URL is required'')])
             else
               (case api_key_b (save_body req) of
                  JStr k \<Rightarrow>
                    if k = [] then (r, 400, JObj [(''error'', JStr ''API Key is required'')])
                    else if \<not> valid_url u then
                      (r, 400, JObj [(''error'', JStr ''Invalid URL format'')])
                    else
                      (case saveSettings u k (model_display_b (save_body req))
                              (model_actual_b (save_body req)) (system_prompt_b (save_body req)) r of
                         (r1, success) \<Rightarrow>
                           if \<not> success then
                             (r1, 500, JObj [(''error'', JStr ''Failed to save settings'')])
                           else
                             (r1, 200, JObj [(''success'', JBool True),
                                             (''message'', JStr ''Settings saved successfully'')]))
                | other \<Rightarrow> (r, 400, JObj [(''error'', JStr ''API Key is required'')]))
         | other \<Rightarrow> (r, 400, JObj [(''error'', JStr ''API URL is required'')])))"

section \<open>Readings of the specification\<close>

text \<open>\<open>undefined\<close> and \<open>null\<close>, the two values whose properties cannot be read.\<close>

definition is_nullish :: "jsval \<Rightarrow> bool" where
  "is_nullish v = (v = JUndefined \<or> v = JNull)"

text \<open>
  The classification as claim C3 words it, to be compared with \<^const>\<open>hasNewUserMessage\<close>:
  the last message has the role \<open>user\<close> and its content is a string, or an array of
  blocks none of which has the type \<open>tool_result\<close>, or an object whose type is not
  \<open>tool_result\<close>; nothing else is countable.
\<close>

definition claimed_countable :: "jsval \<Rightarrow> bool" where
  "claimed_countable requestBody =
     (case opt_prop requestBody ''messages'' of
        JArr ms \<Rightarrow>
          opt_prop (last_entry ms) ''role'' = JStr ''user''
          \<and> (case opt_prop (last_entry ms) ''content'' of
                JStr s \<Rightarrow> True
              | JArr blocks \<Rightarrow> list_all (\<lambda>b. opt_prop b ''type'' \<noteq> JStr ''tool_result'') blocks
              | JObj fs \<Rightarrow> opt_prop (JObj fs) ''type'' \<noteq> JStr ''tool_result''
              | other \<Rightarrow> False)
      | other \<Rightarrow> False)"

section \<open>Example data\<close>

text \<open>A key record of the current schema, dated 2026-11-03, and a store that holds one key.\<close>

definition demo_key :: "int \<Rightarrow> int \<Rightarrow> stored_key" where
  "demo_key l c =
     \<lparr>expiry = Some ''2027-01-01'',
      daily_limit = Some l,
      usage_today = Some \<lparr>date = ''2026-11-03'', count = c\<rparr>,
      session_timeout_minutes = Some 15,
      selected_model = None,
      selected_api_profile_id = None,
      max_concurrent_users = None,
      max_activations = None,
      max_ips = None\<rparr>"

definition demo_store :: "stored_key \<Rightarrow> redis" where
  "demo_store data = \<lparr>keys = [''sk-demo'' \<mapsto> data], settings = None, profiles = Map.empty\<rparr>"

text \<open>Global settings with a display name, an actual model id and a system prompt.\<close>

definition demo_settings :: ProxySettings where
  "demo_settings =
     \<lparr>api_url = ''https://u.example/v1'',
      api_key = ''upstream-key'',
      model_display = ''Public-Model'',
      model_actual = ''gpt-x'',
      system_prompt = Some ''  Be brief.  '',
      models = None\<rparr>"

text \<open>A POST request of the key \<open>sk-demo\<close>, and a save request of an administrator.\<close>

definition demo_request :: "string \<Rightarrow> jsval \<Rightarrow> request" where
  "demo_request path b =
     \<lparr>http_method = ''POST'', url = Some path, authorization = Some ''Bearer sk-demo'', body = b\<rparr>"

definition demo_save_request :: save_request where
  "demo_save_request =
     \<lparr>save_method = ''POST'',
      save_authorization = Some ''Bearer admin-token'',
      save_body =
        \<lparr>api_url_b = JStr ''https://new.example'',
         api_key_b = JStr ''new-key'',
         model_display_b = None,
         model_actual_b = None,
         system_prompt_b = None\<rparr>\<rparr>"

definition demo_models :: "string \<rightharpoonup> ModelConfig" where
  "demo_models = [''gemini'' \<mapsto> \<lparr>id_mc = ''gemini'', name_mc = ''Gemini'', system_prompt_mc = ''Be kind.''\<rparr>]"

text \<open>The legacy record of the specification.\<close>

definition legacy_key :: stored_key where
  "legacy_key =
     \<lparr>expiry = Some ''2026-01-01'',
      daily_limit = None,
      usage_today = None,
      session_timeout_minutes = None,
      selected_model = None,
      selected_api_profile_id = None,
      max_concurrent_users = None,
      max_activations = Some 3,
      max_ips = None\<rparr>"

section \<open>Properties of the upstream URL\<close>

lemma replace_first_prefix:
  "startsWith s p \<Longrightarrow> replace_first p r s = r @ drop (length p) s"
  by (cases s) (auto simp: startsWith_def)

lemma buildUpstreamUrl_closed_form:
  "buildUpstreamUrl base path =
     (let b = (if endsWith base ''/'' then butlast base else base) in
      if endsWith b ''/v1'' \<and> startsWith path ''/v1'' then b @ drop 3 path
      else b @ path)"
  by (simp add: buildUpstreamUrl_def Let_def replace_first_prefix numeral_3_eq_3)

lemma startsWith_v1_query:
  "startsWith (p @ CHR ''?'' # q) ''/v1'' = startsWith p ''/v1''"
proof (cases p)
  case Nil
  then show ?thesis by (simp add: startsWith_def)
next
  case (Cons a p1)
  show ?thesis
  proof (cases p1)
    case Nil
    with Cons show ?thesis by (simp add: startsWith_def)
  next
    case (Cons b p2)
    note c2 = this
    show ?thesis
    proof (cases p2)
      case Nil
      with c2 \<open>p = a # p1\<close> show ?thesis by (simp add: startsWith_def)
    next
      case (Cons c p3)
      with c2 \<open>p = a # p1\<close> show ?thesis by (simp add: startsWith_def)
    qed
  qed
qed

lemma buildUpstreamUrl_query:
  "buildUpstreamUrl base (p @ CHR ''?'' # q) = buildUpstreamUrl base p @ CHR ''?'' # q"
proof -
  have "startsWith p ''/v1'' \<Longrightarrow> drop 3 (p @ CHR ''?'' # q) = drop 3 p @ CHR ''?'' # q"
    by (auto simp: startsWith_def dest: arg_cong [where f = length])
  then show ?thesis
    by (simp add: buildUpstreamUrl_closed_form Let_def startsWith_v1_query)
qed

lemma buildUpstreamUrl_example_v1:
  "buildUpstreamUrl ''https://u.example/v1'' ''/v1/chat/completions''
     = ''https://u.example/v1/chat/completions''"
  by (simp add: buildUpstreamUrl_def endsWith_def startsWith_def)

lemma buildUpstreamUrl_example_plain:
  "buildUpstreamUrl ''https://u.example'' ''/v1/messages'' = ''https://u.example/v1/messages''"
  by (simp add: buildUpstreamUrl_def endsWith_def startsWith_def)

text \<open>
  Claim C7. The upstream URL is the base without its trailing slash (one slash is
  removed when the base ends with one), followed by the client path; when the stripped
  base ends with \<open>/v1\<close> and the client path starts with \<open>/v1\<close>, the leading \<open>/v1\<close> of the
  client path is left out. A query string on the client path is part of the path and
  arrives unchanged at the end of the URL. The two examples of the specification hold.
\<close>

theorem buildUpstreamUrl_rule:
  "buildUpstreamUrl base path =
     (let b = (if endsWith base ''/'' then butlast base else base) in
      if endsWith b ''/v1'' \<and> startsWith path ''/v1'' then b @ drop 3 path
      else b @ path)
   \<and> buildUpstreamUrl base (p @ CHR ''?'' # q) = buildUpstreamUrl base p @ CHR ''?'' # q
   \<and> buildUpstreamUrl ''https://u.example/v1'' ''/v1/chat/completions''
       = ''https://u.example/v1/chat/completions''
   \<and> buildUpstreamUrl ''https://u.example'' ''/v1/messages'' = ''https://u.example/v1/messages''"
  using buildUpstreamUrl_closed_form [of base path]
    buildUpstreamUrl_query [of base p q]
    buildUpstreamUrl_example_v1 buildUpstreamUrl_example_plain
  by blast

section \<open>Properties of the key store and the quota\<close>

lemma getKeyData_today:
  assumes "keys r k = Some data" "daily_limit data = Some l"
    "usage_today data = Some u" "date u = today"
  shows "getKeyData today k r = (r, Some data)"
  using assms by (simp add: getKeyData_def)

lemma incrementUsage_today:
  assumes "keys r k = Some data" "daily_limit data = Some l"
    "usage_today data = Some u" "date u = today"
  shows "incrementUsage today k r =
     (if count u \<ge> l then
        (r, \<lparr>allowed = False, currentUsage = count u, limit = Some l,
             reason = Some ''daily_limit_reached''\<rparr>)
      else
        (r\<lparr>keys := (keys r)(k \<mapsto> data\<lparr>usage_today := Some (u\<lparr>count := count u + 1\<rparr>)\<rparr>)\<rparr>,
         \<lparr>allowed = True, currentUsage = count u + 1, limit = Some l, reason = None\<rparr>))"
  using assms by (simp add: incrementUsage_def getKeyData_today [OF assms] check_and_increment_def Let_def)

text \<open>
  Claim C1. A countable request is one for which the quota stage runs with
  \<open>countable = True\<close>. When the stored record of the key is dated today and its count has
  reached its limit, the stage answers with status 429, a body whose \<open>current_usage\<close> and
  \<open>daily_limit\<close> are the stored count and limit, and leaves the store as it was. When the
  count is below the limit, the stage stores the record with its count raised by one and
  every other field as before, and goes on with the admitted result.
\<close>

theorem quota_stage_countable:
  assumes "keys r k = Some data" "daily_limit data = Some l"
    "usage_today data = Some \<lparr>date = today, count = c\<rparr>"
  shows "quota_stage today k keyData True r =
     (if c \<ge> l then
        (r, Inl (Reply 429 (JObj
           [(''error'', JStr ''Daily limit reached''),
            (''message'', JStr (''This key has reached its daily limit of '' @ show_int l
               @ '' requests. Please try again tomorrow.'')),
            (''current_usage'', JNum c),
            (''daily_limit'', JNum l)])))
      else
        (r\<lparr>keys := (keys r)(k \<mapsto> data\<lparr>usage_today := Some \<lparr>date = today, count = c + 1\<rparr>\<rparr>)\<rparr>,
         Inr \<lparr>allowed = True, currentUsage = c + 1, limit = Some l, reason = None\<rparr>))"
proof -
  have "date \<lparr>date = today, count = c\<rparr> = today" by simp
  from incrementUsage_today [OF assms this]
  show ?thesis by (simp add: quota_stage_def num_or_undefined_def)
qed

theorem quota_stage_countable_witness:
  "quota_stage ''2026-11-03'' ''sk-demo'' (demo_key 5 5) True (demo_store (demo_key 5 5)) =
     (demo_store (demo_key 5 5), Inl (Reply 429 (JObj
           [(''error'', JStr ''Daily limit reached''),
            (''message'', JStr ''This key has reached its daily limit of 5 requests. Please try again tomorrow.''),
            (''current_usage'', JNum 5),
            (''daily_limit'', JNum 5)])))
   \<and> quota_stage ''2026-11-03'' ''sk-demo'' (demo_key 5 4) True (demo_store (demo_key 5 4)) =
     (demo_store (demo_key 5 5), Inr \<lparr>allowed = True, currentUsage = 5, limit = Some 5, reason = None\<rparr>)"
  using quota_stage_countable [of "demo_store (demo_key 5 5)" "''sk-demo''" "demo_key 5 5" 5 "''2026-11-03''" 5 "demo_key 5 5"]
    quota_stage_countable [of "demo_store (demo_key 5 4)" "''sk-demo''" "demo_key 5 4" 5 "''2026-11-03''" 4 "demo_key 5 4"]
  by (simp add: demo_store_def demo_key_def show_int_def)

lemma getKeyData_stale:
  assumes "keys r k = Some data" "daily_limit data = Some l"
    "usage_today data = Some u" "date u \<noteq> today"
  shows "getKeyData today k r =
     (r\<lparr>keys := (keys r)(k \<mapsto> data\<lparr>usage_today := Some \<lparr>date = today, count = 0\<rparr>\<rparr>)\<rparr>,
      Some (data\<lparr>usage_today := Some \<lparr>date = today, count = 0\<rparr>\<rparr>))"
  using assms by (simp add: getKeyData_def Let_def)

text \<open>
  Claim C4. When the stored record of a key (current schema) carries a date other than
  today's, the first read of the day stores the record with \<open>usage_today\<close> set to today
  and count 0, every other field as before, and returns it; a second read finds that
  record and writes nothing. The quota logic of \<open>incrementUsage\<close> then works on the reset
  record, whatever the count was before: from the stale store it gives what the check
  and write give on the reset record and the reset store.
\<close>

theorem stale_date_reset:
  assumes "keys r k = Some data" "daily_limit data = Some l"
    "usage_today data = Some u" "date u \<noteq> today"
  defines "fresh \<equiv> data\<lparr>usage_today := Some \<lparr>date = today, count = 0\<rparr>\<rparr>"
  defines "r1 \<equiv> r\<lparr>keys := (keys r)(k \<mapsto> fresh)\<rparr>"
  shows "getKeyData today k r = (r1, Some fresh)
       \<and> getKeyData today k r1 = (r1, Some fresh)
       \<and> incrementUsage today k r = check_and_increment k (Some fresh) r1
       \<and> incrementUsage today k r1 = check_and_increment k (Some fresh) r1"
proof -
  have first: "getKeyData today k r = (r1, Some fresh)"
    unfolding r1_def fresh_def by (rule getKeyData_stale [OF assms(1-4)])
  have "keys r1 k = Some fresh" "daily_limit fresh = Some l"
    "usage_today fresh = Some \<lparr>date = today, count = 0\<rparr>" "date \<lparr>date = today, count = 0\<rparr> = today"
    using assms(2) by (simp_all add: r1_def fresh_def)
  then have second: "getKeyData today k r1 = (r1, Some fresh)"
    by (rule getKeyData_today)
  show ?thesis
    using first second by (simp add: incrementUsage_def)
qed


theorem stale_date_reset_witness:
  "getKeyData ''2026-11-04'' ''sk-demo'' (demo_store (demo_key 5 5)) =
     (demo_store ((demo_key 5 5)\<lparr>usage_today := Some \<lparr>date = ''2026-11-04'', count = 0\<rparr>\<rparr>),
      Some ((demo_key 5 5)\<lparr>usage_today := Some \<lparr>date = ''2026-11-04'', count = 0\<rparr>\<rparr>))
   \<and> fst (incrementUsage ''2026-11-04'' ''sk-demo'' (demo_store (demo_key 5 5))) =
       demo_store ((demo_key 5 5)\<lparr>usage_today := Some \<lparr>date = ''2026-11-04'', count = 1\<rparr>\<rparr>)
   \<and> allowed (snd (incrementUsage ''2026-11-04'' ''sk-demo'' (demo_store (demo_key 5 5))))"
  using stale_date_reset [of "demo_store (demo_key 5 5)" "''sk-demo''" "demo_key 5 5" 5
      "\<lparr>date = ''2026-11-03'', count = 5\<rparr>" "''2026-11-04''"]
  by (simp add: demo_store_def demo_key_def check_and_increment_def)

lemma getKeyData_legacy:
  assumes "keys r k = Some data" "daily_limit data = None \<or> usage_today data = None"
  shows "getKeyData today k r =
     (r\<lparr>keys := (keys r)(k \<mapsto>
          \<lparr>expiry = expiry data,
           daily_limit = Some (case max_concurrent_users data of
                      Some n \<Rightarrow> n * 50
                    | None \<Rightarrow>
                        (case max_activations data of
                           Some n \<Rightarrow> n * 50
                         | None \<Rightarrow>
                             (case max_ips data of
                                Some n \<Rightarrow> n * 50
                              | None \<Rightarrow> 100))),
           usage_today = Some \<lparr>date = today, count = 0\<rparr>,
           session_timeout_minutes = Some 15,
           selected_model = None,
           selected_api_profile_id = None,
           max_concurrent_users = None,
           max_activations = None,
           max_ips = None\<rparr>)\<rparr>,
      Some \<lparr>expiry = expiry data,
           daily_limit = Some (case max_concurrent_users data of
                      Some n \<Rightarrow> n * 50
                    | None \<Rightarrow>
                        (case max_activations data of
                           Some n \<Rightarrow> n * 50
                         | None \<Rightarrow>
                             (case max_ips data of
                                Some n \<Rightarrow> n * 50
                              | None \<Rightarrow> 100))),
           usage_today = Some \<lparr>date = today, count = 0\<rparr>,
           session_timeout_minutes = Some 15,
           selected_model = None,
           selected_api_profile_id = None,
           max_concurrent_users = None,
           max_activations = None,
           max_ips = None\<rparr>)"
  using assms by (auto simp add: getKeyData_def Let_def)

text \<open>
  Claim C5. A stored record that has neither \<open>daily_limit\<close> nor \<open>usage_today\<close> is migrated
  by the first read: the limit is 50 times \<open>max_concurrent_users\<close>, else 50 times
  \<open>max_activations\<close>, else 50 times \<open>max_ips\<close>, else 100; the usage is today's with count 0;
  the expiry is kept; the session timeout is 15; no other field is carried over. The
  migrated record is stored and returned, and a later read of the request finds it
  unchanged. The witness is the record of the specification, with \<open>max_activations = 3\<close>.
\<close>

theorem legacy_migration:
  assumes "keys r k = Some data" "daily_limit data = None" "usage_today data = None"
  shows "\<exists>migrated r1.
       getKeyData today k r = (r1, Some migrated)
     \<and> r1 = r\<lparr>keys := (keys r)(k \<mapsto> migrated)\<rparr>
     \<and> getKeyData today k r1 = (r1, Some migrated)
     \<and> expiry migrated = expiry data
     \<and> daily_limit migrated =
         Some (case max_concurrent_users data of
                 Some n \<Rightarrow> n * 50
               | None \<Rightarrow>
                   (case max_activations data of
                      Some n \<Rightarrow> n * 50
                    | None \<Rightarrow> (case max_ips data of Some n \<Rightarrow> n * 50 | None \<Rightarrow> 100)))
     \<and> usage_today migrated = Some \<lparr>date = today, count = 0\<rparr>
     \<and> session_timeout_minutes migrated = Some 15
     \<and> selected_model migrated = None \<and> selected_api_profile_id migrated = None
     \<and> max_concurrent_users migrated = None \<and> max_activations migrated = None
     \<and> max_ips migrated = None"
proof -
  define lim where "lim =
    (case max_concurrent_users data of
       Some n \<Rightarrow> n * 50
     | None \<Rightarrow>
         (case max_activations data of
            Some n \<Rightarrow> n * 50
          | None \<Rightarrow> (case max_ips data of Some n \<Rightarrow> n * 50 | None \<Rightarrow> 100)))"
  define migrated where "migrated =
    \<lparr>expiry = expiry data, daily_limit = Some lim,
     usage_today = Some \<lparr>date = today, count = 0\<rparr>, session_timeout_minutes = Some 15,
     selected_model = None, selected_api_profile_id = None, max_concurrent_users = None,
     max_activations = None, max_ips = None\<rparr>"
  define r1 where "r1 = r\<lparr>keys := (keys r)(k \<mapsto> migrated)\<rparr>"
  from assms(2) have "daily_limit data = None \<or> usage_today data = None" by simp
  from getKeyData_legacy [OF assms(1) this, of today]
  have first: "getKeyData today k r = (r1, Some migrated)"
    by (simp add: r1_def migrated_def lim_def)
  have "keys r1 k = Some migrated" "daily_limit migrated = Some lim"
    "usage_today migrated = Some \<lparr>date = today, count = 0\<rparr>"
    "date \<lparr>date = today, count = 0\<rparr> = today"
    by (simp_all add: r1_def migrated_def)
  then have second: "getKeyData today k r1 = (r1, Some migrated)"
    by (rule getKeyData_today)
  have fields: "expiry migrated = expiry data" "daily_limit migrated = Some lim"
    "usage_today migrated = Some \<lparr>date = today, count = 0\<rparr>"
    "session_timeout_minutes migrated = Some 15"
    "selected_model migrated = None" "selected_api_profile_id migrated = None"
    "max_concurrent_users migrated = None" "max_activations migrated = None"
    "max_ips migrated = None"
    by (simp_all add: migrated_def)
  from first second fields r1_def show ?thesis
    unfolding lim_def by blast
qed


theorem legacy_migration_witness:
  "getKeyData ''2026-11-03'' ''sk-demo'' (demo_store legacy_key) =
     (demo_store (demo_key 150 0\<lparr>expiry := Some ''2026-01-01''\<rparr>), 
      Some (demo_key 150 0\<lparr>expiry := Some ''2026-01-01''\<rparr>))"
proof -
  have "keys (demo_store legacy_key) ''sk-demo'' = Some legacy_key"
    "daily_limit legacy_key = None" "usage_today legacy_key = None"
    by (simp_all add: demo_store_def legacy_key_def)
  from legacy_migration [OF this, of "''2026-11-03''"]
  obtain migrated r1 where
     "getKeyData ''2026-11-03'' ''sk-demo'' (demo_store legacy_key) = (r1, Some migrated)"
     "r1 = (demo_store legacy_key)\<lparr>keys := (keys (demo_store legacy_key))(''sk-demo'' \<mapsto> migrated)\<rparr>"
     "expiry migrated = expiry legacy_key"
     "daily_limit migrated = Some 150"
     "usage_today migrated = Some \<lparr>date = ''2026-11-03'', count = 0\<rparr>"
     "session_timeout_minutes migrated = Some 15"
     "selected_model migrated = None" "selected_api_profile_id migrated = None"
     "max_concurrent_users migrated = None" "max_activations migrated = None"
     "max_ips migrated = None"
    by (auto simp add: legacy_key_def)
  then show ?thesis
    by (cases migrated) (simp add: demo_store_def demo_key_def legacy_key_def)
qed

section \<open>Overlapping and sequential requests\<close>

lemma step_twice_is_incrementUsage:
  assumes "i < length invs" "invs ! i = Pending"
  shows "step_invocation today k i (step_invocation today k i (r, invs)) =
           (fst (incrementUsage today k r), invs[i := Finished (snd (incrementUsage today k r))])"
proof -
  obtain r1 fetched where g: "getKeyData today k r = (r1, fetched)"
    by (cases "getKeyData today k r")
  obtain r2 res where c: "check_and_increment k fetched r1 = (r2, res)"
    by (cases "check_and_increment k fetched r1")
  from assms g have "step_invocation today k i (r, invs) = (r1, invs[i := Fetched fetched])"
    by (simp add: step_invocation_def)
  moreover from assms c
  have "step_invocation today k i (r1, invs[i := Fetched fetched]) = (r2, invs[i := Finished res])"
    by (simp add: step_invocation_def)
  ultimately show ?thesis
    using g c by (simp add: incrementUsage_def)
qed

text \<open>
  Against claim C2 as it is worded: two invocations for a key with one request left
  (limit 5, count 4), scheduled so that both fetch before either writes. Both are
  admitted, and the store ends with count 5.
\<close>

theorem overlapping_requests_both_admitted:
  "map admitted (snd (run_schedule ''2026-11-03'' ''sk-demo'' [0, 1, 0, 1]
      (demo_store (demo_key 5 4), [Pending, Pending]))) = [True, True]
   \<and> fst (run_schedule ''2026-11-03'' ''sk-demo'' [0, 1, 0, 1]
      (demo_store (demo_key 5 4), [Pending, Pending])) = demo_store (demo_key 5 5)"
  by (simp add: run_schedule_def step_invocation_def getKeyData_def check_and_increment_def
      demo_store_def demo_key_def)

lemma run_sequential_today:
  "keys r k = Some data \<Longrightarrow> daily_limit data = Some l \<Longrightarrow>
   usage_today data = Some \<lparr>date = today, count = c\<rparr> \<Longrightarrow>
   map allowed (snd (run_sequential today k n r)) =
       replicate (min n (nat (l - c))) True @ replicate (n - nat (l - c)) False
   \<and> fst (run_sequential today k n r) =
       (if n = 0 \<or> l \<le> c then r
        else r\<lparr>keys := (keys r)(k \<mapsto>
               data\<lparr>usage_today := Some \<lparr>date = today, count = c + int (min n (nat (l - c)))\<rparr>\<rparr>)\<rparr>)"
proof (induction n arbitrary: r data c)
  case 0
  then show ?case by simp
next
  case (Suc n)
  have d: "date \<lparr>date = today, count = c\<rparr> = today" by simp
  note inc = incrementUsage_today [OF Suc.prems d]
  show ?case
  proof (cases "l \<le> c")
    case True
    with inc have "incrementUsage today k r =
       (r, \<lparr>allowed = False, currentUsage = c, limit = Some l,
             reason = Some ''daily_limit_reached''\<rparr>)" by simp
    moreover from True have "nat (l - c) = 0" by simp
    ultimately show ?thesis
      using Suc.IH [OF Suc.prems] True
      by (simp add: split_beta replicate_app_Cons_same)
  next
    case False
    define data1 where "data1 = data\<lparr>usage_today := Some \<lparr>date = today, count = c + 1\<rparr>\<rparr>"
    define r1 where "r1 = r\<lparr>keys := (keys r)(k \<mapsto> data1)\<rparr>"
    from False inc have step: "incrementUsage today k r =
       (r1, \<lparr>allowed = True, currentUsage = c + 1, limit = Some l, reason = None\<rparr>)"
      by (simp add: r1_def data1_def)
    have p: "keys r1 k = Some data1" "daily_limit data1 = Some l"
      "usage_today data1 = Some \<lparr>date = today, count = c + 1\<rparr>"
      using Suc.prems by (simp_all add: r1_def data1_def)
    define m where "m = nat (l - (c + 1))"
    have m: "nat (l - c) = Suc m" "nat (l - (c + 1)) = m"
      using False unfolding m_def by linarith+
    have upd: "r1\<lparr>keys := (keys r1)(k \<mapsto> data1\<lparr>usage_today := Some \<lparr>date = today, count = c + 1 + int (min n m)\<rparr>\<rparr>)\<rparr>
       = r\<lparr>keys := (keys r)(k \<mapsto> data\<lparr>usage_today := Some \<lparr>date = today, count = c + int (min (Suc n) (Suc m))\<rparr>\<rparr>)\<rparr>"
      by (simp add: r1_def data1_def add.assoc)
    have r1r: "n = 0 \<or> l \<le> c + 1 \<Longrightarrow> min n m = 0"
      using m by auto
    show ?thesis
      using Suc.IH [OF p] step m upd r1r False
      apply (simp add: split_beta)
      apply (auto simp: r1_def data1_def)
      done
  qed
qed

text \<open>
  Claim C2, as the code has it. The check and the increment of \<open>incrementUsage\<close> are two
  calls of the store with nothing that makes them one step, so two requests that overlap
  can both read the count before either writes. What holds is the sequential case: when
  \<open>n\<close> invocations run one after the other on a key dated today whose limit exceeds its
  count by \<open>k\<close>, the first \<open>min n k\<close> are admitted and the rest are refused, and the store
  ends with the count raised by \<open>min n k\<close>.
\<close>

theorem sequential_requests_admitted:
  assumes "keys r key = Some data" "daily_limit data = Some l"
    "usage_today data = Some \<lparr>date = today, count = c\<rparr>" "l - c = int k"
  shows "map allowed (snd (run_sequential today key n r)) =
           replicate (min n k) True @ replicate (n - k) False
       \<and> length (filter allowed (snd (run_sequential today key n r))) = min n k
       \<and> fst (run_sequential today key n r) =
           (if n = 0 \<or> k = 0 then r
            else r\<lparr>keys := (keys r)(key \<mapsto>
                   data\<lparr>usage_today := Some \<lparr>date = today, count = c + int (min n k)\<rparr>\<rparr>)\<rparr>)"
proof -
  from assms(4) have k: "nat (l - c) = k" "l \<le> c \<longleftrightarrow> k = 0" by auto
  note seq = run_sequential_today [OF assms(1-3), of n, unfolded k]
  have "length (filter allowed (snd (run_sequential today key n r))) =
          length (filter id (map allowed (snd (run_sequential today key n r))))"
    by (simp add: filter_map comp_def)
  also have "\<dots> = min n k"
    using seq by simp
  finally show ?thesis using seq by simp
qed

theorem sequential_requests_admitted_witness:
  "map allowed (snd (run_sequential ''2026-11-03'' ''sk-demo'' 3 (demo_store (demo_key 5 4)))) =
     [True, False, False]
   \<and> fst (run_sequential ''2026-11-03'' ''sk-demo'' 3 (demo_store (demo_key 5 4))) =
       demo_store (demo_key 5 5)"
  using sequential_requests_admitted [of "demo_store (demo_key 5 4)" "''sk-demo''" "demo_key 5 4"
      5 "''2026-11-03''" 4 1 3]
  by (simp add: demo_store_def demo_key_def numeral_2_eq_2)

section \<open>Properties of the classification\<close>

lemma get_prop_opt_prop: "\<not> is_nullish v \<Longrightarrow> get_prop v k = Inr (opt_prop v k)"
  by (cases v) (simp_all add: is_nullish_def)

lemma opt_prop_nullish: "is_nullish v \<Longrightarrow> opt_prop v k = JUndefined"
  by (cases v) (simp_all add: is_nullish_def)

lemma some_prop_is_no_throw:
  "list_all (\<lambda>b. \<not> is_nullish b) xs \<Longrightarrow>
     some_prop_is k lit xs = Inr (list_ex (\<lambda>b. opt_prop b k = JStr lit) xs)"
  by (induction xs) (simp_all add: get_prop_opt_prop)

text \<open>
  Against claim C3 as it is worded: a last message with the role \<open>user\<close> and no content
  at all, or with a number as content, is counted by the handler; the wording of the
  claim does not count it.
\<close>

theorem missing_content_is_counted:
  "hasNewUserMessage (JObj [(''messages'', JArr [JObj [(''role'', JStr ''user'')]])]) = Inr True
   \<and> \<not> claimed_countable (JObj [(''messages'', JArr [JObj [(''role'', JStr ''user'')]])])
   \<and> hasNewUserMessage
        (JObj [(''messages'', JArr [JObj [(''role'', JStr ''user''), (''content'', JNum 42)]])])
       = Inr True
   \<and> \<not> claimed_countable
        (JObj [(''messages'', JArr [JObj [(''role'', JStr ''user''), (''content'', JNum 42)]])])"
  by (simp add: hasNewUserMessage_def claimed_countable_def last_entry_def)

text \<open>
  Claim C3, as the code has it. For a payload with a messages list, where the blocks of
  an array content are not \<open>null\<close>: the request is countable if and only if the last
  entry of the list (there is none in an empty list) has the role \<open>user\<close>, and its content
  is a string, or an array none of whose blocks has the type \<open>tool_result\<close>, or any other
  value (an object, \<open>null\<close>, a number, or no content at all) whose own type is not
  \<open>tool_result\<close>.
\<close>

theorem hasNewUserMessage_rule:
  assumes "get_prop requestBody ''messages'' = Inr (JArr ms)"
    and "\<And>blocks. opt_prop (last_entry ms) ''content'' = JArr blocks \<Longrightarrow>
           list_all (\<lambda>b. \<not> is_nullish b) blocks"
  shows "hasNewUserMessage requestBody =
     Inr (opt_prop (last_entry ms) ''role'' = JStr ''user''
          \<and> (case opt_prop (last_entry ms) ''content'' of
                JStr s \<Rightarrow> True
              | JArr blocks \<Rightarrow> list_all (\<lambda>b. opt_prop b ''type'' \<noteq> JStr ''tool_result'') blocks
              | other \<Rightarrow> opt_prop other ''type'' \<noteq> JStr ''tool_result''))"
proof (cases "opt_prop (last_entry ms) ''role'' = JStr ''user''")
  case False
  then show ?thesis using assms(1)
    by (simp add: hasNewUserMessage_def)
next
  case True
  then have nn: "\<not> is_nullish (last_entry ms)"
    using opt_prop_nullish [of "last_entry ms" "''role''"] by auto
  note c = get_prop_opt_prop [OF nn, of "''content''"]
  show ?thesis
  proof (cases "opt_prop (last_entry ms) ''content''")
    case (JArr blocks)
    from assms(2) [OF this] have "list_all (\<lambda>b. \<not> is_nullish b) blocks" .
    from some_prop_is_no_throw [OF this, of "''type''" "''tool_result''"]
    show ?thesis using True assms(1) c JArr
      by (simp add: hasNewUserMessage_def list_ex_iff list_all_iff)
  qed (use True assms(1) c in \<open>simp_all add: hasNewUserMessage_def\<close>)
qed

theorem hasNewUserMessage_rule_witness:
  "hasNewUserMessage
     (JObj [(''messages'', JArr [JObj [(''role'', JStr ''user''), (''content'', JStr ''hi'')]])])
     = Inr True
   \<and> hasNewUserMessage
       (JObj [(''messages'', JArr [JObj [(''role'', JStr ''user''),
          (''content'', JArr [JObj [(''type'', JStr ''tool_result'')]])]])])
     = Inr False
   \<and> hasNewUserMessage
       (JObj [(''messages'', JArr [JObj [(''role'', JStr ''assistant''),
          (''content'', JStr ''hello'')]])])
     = Inr False
   \<and> hasNewUserMessage (JObj [(''messages'', JArr [])]) = Inr False"
  using hasNewUserMessage_rule
      [of "JObj [(''messages'', JArr [JObj [(''role'', JStr ''user''), (''content'', JStr ''hi'')]])]"
          "[JObj [(''role'', JStr ''user''), (''content'', JStr ''hi'')]]"]
    hasNewUserMessage_rule
      [of "JObj [(''messages'', JArr [JObj [(''role'', JStr ''user''),
             (''content'', JArr [JObj [(''type'', JStr ''tool_result'')]])]])]"
          "[JObj [(''role'', JStr ''user''),
             (''content'', JArr [JObj [(''type'', JStr ''tool_result'')]])]]"]
    hasNewUserMessage_rule
      [of "JObj [(''messages'', JArr [JObj [(''role'', JStr ''assistant''),
             (''content'', JStr ''hello'')]])]"
          "[JObj [(''role'', JStr ''assistant''), (''content'', JStr ''hello'')]]"]
    hasNewUserMessage_rule [of "JObj [(''messages'', JArr [])]" "[]"]
  by (simp add: is_nullish_def last_entry_def)

section \<open>Properties of the model policy\<close>

lemma map_of_update_same: "map_of (AList.update k v fs) k = Some v"
  by (simp add: update_conv')

lemma map_of_update_other: "k' \<noteq> k \<Longrightarrow> map_of (AList.update k v fs) k' = map_of fs k'"
  by (simp add: update_conv')

lemma opt_prop_JStr_object: "opt_prop v k = JStr s \<Longrightarrow> \<exists>fs. v = JObj fs"
  by (cases v) simp_all

lemma or_default_nonempty: "d \<noteq> [] \<Longrightarrow> or_default a d \<noteq> []"
  by (simp add: or_default_def split: option.splits)

lemma resolve_modelActual_nonempty: "resolve_modelActual s0 pma \<noteq> []"
  by (simp add: resolve_modelActual_def or_default_nonempty)

lemma hasNewUserMessage_not_nullish:
  "hasNewUserMessage requestBody = Inr b \<Longrightarrow> \<not> is_nullish requestBody"
  by (cases requestBody) (simp_all add: hasNewUserMessage_def is_nullish_def)

text \<open>
  Claim C6. The request body that reaches the model stage is not \<open>undefined\<close> or \<open>null\<close>
  (the classification before it has read its \<open>messages\<close>). Unless its \<open>model\<close> is exactly
  the display name, the stage answers with status 400 and a body of type
  \<open>invalid_request_error\<close>. When it is, the body is an object and goes on with its \<open>model\<close>
  set to the actual model id and every other field as it was. The display name is the
  configured \<open>model_display\<close> when one is configured. The actual model id is the
  \<open>model_actual\<close> of the selected profile when that profile exists, is active and names
  one, and the \<open>model_actual\<close> of the global settings when no profile overrides it.
\<close>

theorem model_gate:
  assumes "\<not> is_nullish requestBody"
  shows "(opt_prop requestBody ''model'' \<noteq> JStr (resolve_modelDisplay s0) \<longrightarrow>
            model_stage s0 pma requestBody =
              Inl (Reply 400 (JObj
                [(''error'', JStr ''Invalid model''),
                 (''message'', JStr (''Model '' @ [CHR 0x22]
                    @ toString (opt_prop requestBody ''model'') @ [CHR 0x22]
                    @ '' is not available. Please use '' @ [CHR 0x22]
                    @ resolve_modelDisplay s0 @ [CHR 0x22] @ ''.'')),
                 (''type'', JStr ''invalid_request_error'')])))
       \<and> (opt_prop requestBody ''model'' = JStr (resolve_modelDisplay s0) \<longrightarrow>
            (\<exists>fs. requestBody = JObj fs
               \<and> model_stage s0 pma requestBody =
                   Inr (JObj (AList.update ''model'' (JStr (resolve_modelActual s0 pma)) fs))
               \<and> opt_prop (JObj (AList.update ''model'' (JStr (resolve_modelActual s0 pma)) fs))
                     ''model'' = JStr (resolve_modelActual s0 pma)
               \<and> (\<forall>k. k \<noteq> ''model'' \<longrightarrow>
                     opt_prop (JObj (AList.update ''model'' (JStr (resolve_modelActual s0 pma)) fs)) k
                       = opt_prop requestBody k)))
       \<and> (\<forall>s. s0 = Some s \<and> model_display s \<noteq> [] \<longrightarrow> resolve_modelDisplay s0 = model_display s)
       \<and> (\<forall>profileId profile m.
             selected_api_profile_id keyData = Some profileId \<and> profileId \<noteq> []
             \<and> profiles r profileId = Some profile \<and> is_active profile
             \<and> model_actual_p profile = Some m \<and> m \<noteq> [] \<longrightarrow>
             resolve_modelActual s0 (profileModelActual (resolve_route K s0 keyData r)) = m)
       \<and> (\<forall>s. s0 = Some s \<and> model_actual s \<noteq> [] \<longrightarrow>
             resolve_modelActual s0 None = model_actual s)"
proof (intro conjI impI allI)
  assume "opt_prop requestBody ''model'' \<noteq> JStr (resolve_modelDisplay s0)"
  then show "model_stage s0 pma requestBody =
              Inl (Reply 400 (JObj
                [(''error'', JStr ''Invalid model''),
                 (''message'', JStr (''Model '' @ [CHR 0x22]
                    @ toString (opt_prop requestBody ''model'') @ [CHR 0x22]
                    @ '' is not available. Please use '' @ [CHR 0x22]
                    @ resolve_modelDisplay s0 @ [CHR 0x22] @ ''.'')),
                 (''type'', JStr ''invalid_request_error'')]))"
    using get_prop_opt_prop [OF assms, of "''model''"]
    by (simp add: model_stage_def Let_def)
next
  assume eq: "opt_prop requestBody ''model'' = JStr (resolve_modelDisplay s0)"
  then obtain fs where fs: "requestBody = JObj fs"
    using opt_prop_JStr_object by blast
  have "model_stage s0 pma requestBody =
      Inr (JObj (AList.update ''model'' (JStr (resolve_modelActual s0 pma)) fs))"
    using eq get_prop_opt_prop [OF assms, of "''model''"] fs
    by (simp add: model_stage_def Let_def)
  moreover have "opt_prop (JObj (AList.update ''model'' (JStr (resolve_modelActual s0 pma)) fs))
      ''model'' = JStr (resolve_modelActual s0 pma)"
    by (simp add: map_of_update_same)
  moreover have "\<forall>k. k \<noteq> ''model'' \<longrightarrow>
      opt_prop (JObj (AList.update ''model'' (JStr (resolve_modelActual s0 pma)) fs)) k
        = opt_prop requestBody k"
    using fs by (simp add: map_of_update_other)
  ultimately show "\<exists>fs. requestBody = JObj fs
               \<and> model_stage s0 pma requestBody =
                   Inr (JObj (AList.update ''model'' (JStr (resolve_modelActual s0 pma)) fs))
               \<and> opt_prop (JObj (AList.update ''model'' (JStr (resolve_modelActual s0 pma)) fs))
                     ''model'' = JStr (resolve_modelActual s0 pma)
               \<and> (\<forall>k. k \<noteq> ''model'' \<longrightarrow>
                     opt_prop (JObj (AList.update ''model'' (JStr (resolve_modelActual s0 pma)) fs)) k
                       = opt_prop requestBody k)"
    using fs by blast
next
  fix s assume "s0 = Some s \<and> model_display s \<noteq> []"
  then show "resolve_modelDisplay s0 = model_display s"
    by (simp add: resolve_modelDisplay_def or_default_def)
next
  fix profileId profile m
  assume "selected_api_profile_id keyData = Some profileId \<and> profileId \<noteq> []
             \<and> profiles r profileId = Some profile \<and> is_active profile
             \<and> model_actual_p profile = Some m \<and> m \<noteq> []"
  then show "resolve_modelActual s0 (profileModelActual (resolve_route K s0 keyData r)) = m"
    by (simp add: resolve_route_def getAPIProfile_def resolve_modelActual_def or_str_def
        truthy_def or_default_def)
next
  fix s
  assume "s0 = Some s \<and> model_actual s \<noteq> []"
  then show "resolve_modelActual s0 None = model_actual s"
    by (auto simp add: resolve_modelActual_def or_str_def truthy_def or_default_def)
qed


theorem model_gate_witness:
  "model_stage (Some demo_settings) None
       (JObj [(''model'', JStr ''Public-Model''), (''stream'', JBool True)])
     = Inr (JObj [(''model'', JStr ''gpt-x''), (''stream'', JBool True)])
   \<and> model_stage (Some demo_settings) (Some ''profile-model'')
       (JObj [(''model'', JStr ''Public-Model''), (''stream'', JBool True)])
     = Inr (JObj [(''model'', JStr ''profile-model''), (''stream'', JBool True)])
   \<and> model_stage (Some demo_settings) None (JObj [(''model'', JStr ''gpt-x'')])
     = Inl (Reply 400 (JObj
         [(''error'', JStr ''Invalid model''),
          (''message'', JStr (''Model '' @ [CHR 0x22] @ ''gpt-x'' @ [CHR 0x22]
             @ '' is not available. Please use '' @ [CHR 0x22] @ ''Public-Model''
             @ [CHR 0x22] @ ''.'')),
          (''type'', JStr ''invalid_request_error'')]))"
  using model_gate [of "JObj [(''model'', JStr ''Public-Model''), (''stream'', JBool True)]"
      "Some demo_settings" None]
    model_gate [of "JObj [(''model'', JStr ''Public-Model''), (''stream'', JBool True)]"
      "Some demo_settings" "Some ''profile-model''"]
    model_gate [of "JObj [(''model'', JStr ''gpt-x'')]" "Some demo_settings" None]
  by (simp add: is_nullish_def resolve_modelDisplay_def resolve_modelActual_def or_default_def
      or_str_def truthy_def demo_settings_def)

section \<open>Properties of the prompt injector\<close>

lemma replace_system_messages_no_throw:
  "list_all (\<lambda>m. \<not> is_nullish m) ms \<Longrightarrow>
     replace_system_messages p ms =
       Inr (map (\<lambda>m. if opt_prop m ''role'' = JStr ''system''
                      then JObj [(''role'', JStr ''system''), (''content'', JStr p)] else m) ms)"
  by (induction ms) (simp_all add: get_prop_opt_prop)

lemma last_dropWhile: "dropWhile P xs \<noteq> [] \<Longrightarrow> last (dropWhile P xs) = last xs"
  by (induction xs) (auto split: if_splits)

lemma trim_no_space:
  assumes ne: "trim s \<noteq> []"
  shows "\<not> js_space (hd (trim s)) \<and> \<not> js_space (last (trim s))"
proof -
  define d where "d = dropWhile js_space s"
  define u where "u = dropWhile js_space (rev d)"
  have t: "trim s = rev u" by (simp add: trim_def u_def d_def)
  with ne have une: "u \<noteq> []" by simp
  then have "\<not> js_space (hd u)" unfolding u_def by (rule hd_dropWhile)
  then have l: "\<not> js_space (last (trim s))" using une by (simp add: t last_rev)
  from une have dne: "d \<noteq> []" unfolding u_def by auto
  then have "\<not> js_space (hd d)" unfolding d_def by (rule hd_dropWhile)
  moreover have "last u = last (rev d)"
    using une unfolding u_def by (rule last_dropWhile)
  ultimately have "\<not> js_space (hd (trim s))"
    using une dne by (simp add: t hd_rev last_rev)
  with l show ?thesis by simp
qed

lemma sanitize_rule:
  "sanitize None = None
   \<and> sanitize (Some s) =
       (if s = [] then Some []
        else if trim s = [] then None
        else Some (take 10000 (trim s)))"
  by (simp add: sanitize_def MAX_SYSTEM_PROMPT_LENGTH_def Let_def)

text \<open>
  What the injection does for a prompt that is not empty and a body that is an object:
  a \<open>system\<close> field that is present is replaced by the prompt; without one, a path
  with \<open>/messages\<close> throws; otherwise, with a messages list whose entries are not \<open>null\<close>,
  every entry with the role \<open>system\<close> is replaced by a system message with the prompt,
  or such a message is put in front when there is none.
\<close>

theorem inject_system_prompt_rule:
  assumes "p \<noteq> []"
  shows "(\<forall>v. map_of fs ''system'' = Some v \<and> v \<noteq> JUndefined \<longrightarrow>
            inject_system_prompt path (Some p) (JObj fs)
              = Inr (JObj (AList.update ''system'' (JStr p) fs)))
       \<and> (map_of fs ''system'' = None \<and> includes_str path ''/messages'' \<longrightarrow>
            inject_system_prompt path (Some p) (JObj fs) = Inl TypeError)
       \<and> (\<forall>ms. map_of fs ''system'' = None \<and> \<not> includes_str path ''/messages''
              \<and> map_of fs ''messages'' = Some (JArr ms)
              \<and> list_all (\<lambda>m. \<not> is_nullish m) ms \<longrightarrow>
            inject_system_prompt path (Some p) (JObj fs)
              = Inr (JObj (AList.update ''messages''
                  (JArr (if list_ex (\<lambda>m. opt_prop m ''role'' = JStr ''system'') ms
                         then map (\<lambda>m. if opt_prop m ''role'' = JStr ''system''
                                        then JObj [(''role'', JStr ''system''), (''content'', JStr p)]
                                        else m) ms
                         else JObj [(''role'', JStr ''system''), (''content'', JStr p)] # ms))
                  fs)))"
  using assms
  by (auto simp add: inject_system_prompt_def system_preview_def some_prop_is_no_throw
      replace_system_messages_no_throw split: jsval.splits)

text \<open>
  Claim C9 at an input where the code departs from it. The request goes to
  \<open>/v1/messages\<close>, its body has no \<open>system\<close> field, and the settings hold a system
  prompt. The handler takes the single-system-field branch, and the preview of the absent
  field in its debug line throws before the field is set: the request ends in the outer
  \<open>catch\<close> (status 500), after its usage has been counted.
\<close>

theorem messages_path_without_system_throws:
  "inject_system_prompt ''/v1/messages'' (sanitize (Some ''  Be brief.  ''))
       (JObj [(''model'', JStr ''gpt-x''),
              (''messages'', JArr [JObj [(''role'', JStr ''user''), (''content'', JStr ''hi'')]])])
     = Inl TypeError
   \<and> handler (\<lambda>e. False) ''2026-11-03'' None
        (demo_request ''/v1/messages''
           (JObj [(''model'', JStr ''Public-Model''),
                  (''messages'', JArr [JObj [(''role'', JStr ''user''), (''content'', JStr ''hi'')]])]))
        ((demo_store (demo_key 5 0))\<lparr>settings := Some demo_settings\<rparr>)
     = ((demo_store (demo_key 5 1))\<lparr>settings := Some demo_settings\<rparr>, Inl (Thrown TypeError))"
  by (simp add: inject_system_prompt_def sanitize_def trim_def js_space_def
      MAX_SYSTEM_PROMPT_LENGTH_def system_preview_def startsWith_def
      handler_def demo_request_def demo_store_def demo_key_def demo_settings_def
      or_default_def truthy_def or_str_def getKeyData_def hasNewUserMessage_def
      last_entry_def quota_stage_def incrementUsage_def check_and_increment_def getSettings_def
      resolve_route_def model_stage_def resolve_modelDisplay_def resolve_modelActual_def
      select_system_prompt_def buildUpstreamUrl_def endsWith_def DEFAULT_API_BASE_def Let_def)

theorem messages_path_without_system_throws_witness:
  "snd (handler (\<lambda>e. False) ''2026-11-03'' None
        (demo_request ''/v1/messages''
           (JObj [(''model'', JStr ''Public-Model''),
                  (''messages'', JArr [JObj [(''role'', JStr ''user''), (''content'', JStr ''hi'')]])]))
        ((demo_store (demo_key 5 0))\<lparr>settings := Some demo_settings\<rparr>))
     = Inl (Thrown TypeError)"
  using messages_path_without_system_throws by simp

section \<open>Properties of the settings save\<close>

lemma save_handler_200:
  assumes "save_handler verifyToken valid_url req r = (r1, 200, b)"
  shows "\<exists>u k. api_url_b (save_body req) = JStr u \<and> api_key_b (save_body req) = JStr k
           \<and> u \<noteq> [] \<and> k \<noteq> [] \<and> valid_url u
           \<and> r1 = fst (saveSettings u k (model_display_b (save_body req))
                  (model_actual_b (save_body req)) (system_prompt_b (save_body req)) r)"
  using assms
  by (auto simp add: save_handler_def saveSettings_def Let_def split: if_splits jsval.splits)

text \<open>
  Claim C10. When the save handler answers with status 200, \<open>api_url\<close> and \<open>api_key\<close> of
  the body are strings, and the settings stored afterwards hold them; keys and profiles
  are untouched. Where \<open>model_display\<close> or \<open>model_actual\<close> is omitted, the stored value is
  the one stored before, or the default \<open>Claude-Opus-4.5-VIP\<close> or
  \<open>claude-3-5-haiku-20241022\<close> when there was none (or an empty one). Where
  \<open>system_prompt\<close> is omitted, the stored value is the one stored before, or the empty
  string. The stored model configurations are those stored before (none when there were
  no settings).
\<close>

theorem save_settings_frame:
  assumes "save_handler verifyToken valid_url req r = (r1, 200, b)"
  shows "\<exists>u k new.
           api_url_b (save_body req) = JStr u \<and> api_key_b (save_body req) = JStr k
         \<and> settings r1 = Some new \<and> keys r1 = keys r \<and> profiles r1 = profiles r
         \<and> api_url new = u \<and> api_key new = k
         \<and> (model_display_b (save_body req) = None \<longrightarrow>
              model_display new =
                (case settings r of
                   None \<Rightarrow> ''Claude-Opus-4.5-VIP''
                 | Some old \<Rightarrow>
                     if model_display old = [] then ''Claude-Opus-4.5-VIP'' else model_display old))
         \<and> (model_actual_b (save_body req) = None \<longrightarrow>
              model_actual new =
                (case settings r of
                   None \<Rightarrow> ''claude-3-5-haiku-20241022''
                 | Some old \<Rightarrow>
                     if model_actual old = [] then ''claude-3-5-haiku-20241022''
                     else model_actual old))
         \<and> (system_prompt_b (save_body req) = None \<longrightarrow>
              system_prompt new =
                Some (case settings r of
                        None \<Rightarrow> []
                      | Some old \<Rightarrow> (case system_prompt old of None \<Rightarrow> [] | Some p \<Rightarrow> p)))
         \<and> models new =
              Some (case settings r of
                      None \<Rightarrow> Map.empty
                    | Some old \<Rightarrow> (case models old of None \<Rightarrow> Map.empty | Some m \<Rightarrow> m))"
proof -
  from save_handler_200 [OF assms] obtain u k where
    uk: "api_url_b (save_body req) = JStr u" "api_key_b (save_body req) = JStr k"
    and r1: "r1 = fst (saveSettings u k (model_display_b (save_body req))
                  (model_actual_b (save_body req)) (system_prompt_b (save_body req)) r)"
    by blast
  show ?thesis
    using uk
    by (cases "settings r")
      (auto simp add: r1 saveSettings_def getSettings_def Let_def or_str_def truthy_def
        or_default_def split: option.splits)
qed


theorem save_settings_frame_witness:
  "save_handler (\<lambda>t. t = ''admin-token'') (\<lambda>u. startsWith u ''https://'') demo_save_request
       ((demo_store (demo_key 5 0))\<lparr>settings := Some (demo_settings\<lparr>models := Some demo_models\<rparr>)\<rparr>)
     = ((demo_store (demo_key 5 0))
          \<lparr>settings := Some (demo_settings
             \<lparr>api_url := ''https://new.example'', api_key := ''new-key'',
              models := Some demo_models\<rparr>)\<rparr>,
        200, JObj [(''success'', JBool True), (''message'', JStr ''Settings saved successfully'')])
   \<and> fst (snd (save_handler (\<lambda>t. t = ''admin-token'') (\<lambda>u. startsWith u ''https://'')
         demo_save_request (demo_store (demo_key 5 0)))) = 200
   \<and> settings (fst (save_handler (\<lambda>t. t = ''admin-token'') (\<lambda>u. startsWith u ''https://'')
         demo_save_request (demo_store (demo_key 5 0))))
       = Some \<lparr>api_url = ''https://new.example'', api_key = ''new-key'',
               model_display = ''Claude-Opus-4.5-VIP'',
               model_actual = ''claude-3-5-haiku-20241022'',
               system_prompt = Some [], models = Some Map.empty\<rparr>"
proof -
  let ?V = "\<lambda>t. t = ''admin-token''" and ?U = "\<lambda>u. startsWith u ''https://''"
  let ?r = "(demo_store (demo_key 5 0))\<lparr>settings := Some (demo_settings\<lparr>models := Some demo_models\<rparr>)\<rparr>"
  obtain r1 b where ev: "save_handler ?V ?U demo_save_request ?r = (r1, 200, b)"
    by (simp add: save_handler_def saveSettings_def demo_save_request_def truthy_def
        or_default_def startsWith_def Let_def)
  obtain r2 b2 where ev2:
    "save_handler ?V ?U demo_save_request (demo_store (demo_key 5 0)) = (r2, 200, b2)"
    by (simp add: save_handler_def saveSettings_def demo_save_request_def truthy_def
        or_default_def startsWith_def Let_def)
  from save_settings_frame [OF ev] save_settings_frame [OF ev2] ev ev2
  show ?thesis
    apply (simp add: demo_save_request_def demo_store_def demo_settings_def)
    apply (auto simp add: save_handler_def saveSettings_def getSettings_def demo_save_request_def truthy_def
        or_default_def or_str_def startsWith_def Let_def demo_store_def demo_settings_def)
    done
qed

section \<open>Properties of the reverse rewrite\<close>

declare replaceAll.simps [simp del]

lemma startsWith_iff: "startsWith s p \<longleftrightarrow> (\<exists>b. s = p @ b)"
proof
  assume "startsWith s p"
  then have "s = p @ drop (length p) s"
    by (metis append_take_drop_id startsWith_def)
  then show "\<exists>b. s = p @ b" ..
next
  assume "\<exists>b. s = p @ b"
  then show "startsWith s p" by (auto simp add: startsWith_def)
qed

lemma includes_str_iff: "includes_str s p \<longleftrightarrow> (\<exists>a b. s = a @ p @ b)"
proof (induction s)
  case Nil
  then show ?case by auto
next
  case (Cons c cs)
  show ?case
  proof
    assume "includes_str (c # cs) p"
    then consider "startsWith (c # cs) p" | "includes_str cs p"
      by (auto split: if_splits)
    then show "\<exists>a b. c # cs = a @ p @ b"
    proof cases
      case 1
      then obtain b where "c # cs = p @ b" by (auto simp: startsWith_iff)
      then have "c # cs = [] @ p @ b" by simp
      then show ?thesis by blast
    next
      case 2
      with Cons.IH obtain a b where "cs = a @ p @ b" by blast
      then have "c # cs = (c # a) @ p @ b" by simp
      then show ?thesis by blast
    qed
  next
    assume "\<exists>a b. c # cs = a @ p @ b"
    then obtain a b where ab: "c # cs = a @ p @ b" by blast
    show "includes_str (c # cs) p"
    proof (cases a)
      case Nil
      with ab have "startsWith (c # cs) p" by (auto simp: startsWith_iff)
      then show ?thesis by simp
    next
      case (Cons x a')
      with ab have "cs = a' @ p @ b" by simp
      with Cons.IH have "includes_str cs p" by blast
      then show ?thesis by simp
    qed
  qed
qed

lemma replaceAll_Nil: "p \<noteq> [] \<Longrightarrow> replaceAll p r [] = []"
  by (subst replaceAll.simps) simp

lemma replaceAll_match:
  "p \<noteq> [] \<Longrightarrow> startsWith t p \<Longrightarrow> replaceAll p r t = r @ replaceAll p r (drop (length p) t)"
  by (subst replaceAll.simps) (auto simp add: startsWith_def)

lemma replaceAll_skip:
  "p \<noteq> [] \<Longrightarrow> \<not> startsWith (c # cs) p \<Longrightarrow> replaceAll p r (c # cs) = c # replaceAll p r cs"
  by (subst replaceAll.simps) simp

lemma replaceAll_no_occurrence:
  "p \<noteq> [] \<Longrightarrow> \<not> includes_str t p \<Longrightarrow> replaceAll p r t = t"
  by (induction t) (auto simp add: replaceAll_Nil replaceAll_skip split: if_splits)

lemma replaceAll_first_occurrence:
  assumes "p \<noteq> []" "\<not> includes_str (a @ butlast p) p"
  shows "replaceAll p r (a @ p @ b) = a @ r @ replaceAll p r b"
  using assms(2)
proof (induction a)
  case Nil
  have "startsWith (p @ b) p" by (simp add: startsWith_iff)
  from replaceAll_match [OF assms(1) this] show ?case by simp
next
  case (Cons x a)
  have "\<not> startsWith (x # a @ p @ b) p"
  proof
    assume "startsWith (x # a @ p @ b) p"
    then have "take (length p) (x # a @ p @ b) = p" by (simp add: startsWith_def)
    moreover have "length p \<le> length (x # a @ butlast p)" by simp
    moreover have "x # a @ p @ b = (x # a @ butlast p) @ (last p # b)"
      using assms(1) by simp
    ultimately have "take (length p) (x # a @ butlast p) = p"
      by (metis take_append diff_is_0_eq take_0 append.right_neutral)
    then have "startsWith ((x # a) @ butlast p) p" by (simp add: startsWith_def)
    with Cons.prems show False by simp
  qed
  moreover from Cons.prems have "\<not> includes_str (a @ butlast p) p"
    by (auto split: if_splits)
  ultimately show ?case
    using Cons.IH assms(1) by (simp add: replaceAll_skip)
qed

lemma includes_str_past:
  "p \<noteq> [] \<Longrightarrow> hd p \<notin> set r \<Longrightarrow> includes_str (r @ s) p \<Longrightarrow> includes_str s p"
proof (induction r)
  case Nil
  then show ?case by simp
next
  case (Cons x r)
  from Cons.prems(1,2) have "\<not> startsWith ((x # r) @ s) p"
    by (cases p) (auto simp add: startsWith_def)
  with Cons.prems(3) have "includes_str (r @ s) p" by (simp split: if_splits)
  with Cons show ?case by simp
qed

lemma startsWith_replaceAll:
  "p \<noteq> [] \<Longrightarrow> r \<noteq> [] \<Longrightarrow> hd r \<notin> set q \<Longrightarrow>
     startsWith (replaceAll p r t) q \<Longrightarrow> startsWith t q"
proof (induction t arbitrary: q)
  case Nil
  then show ?case by (simp add: replaceAll_Nil)
next
  case (Cons c cs)
  show ?case
  proof (cases q)
    case Nil
    then show ?thesis by (simp add: startsWith_def)
  next
    case q: (Cons y q')
    show ?thesis
    proof (cases "startsWith (c # cs) p")
      case True
      from replaceAll_match [OF Cons.prems(1) True]
      have "hd (replaceAll p r (c # cs)) = hd r" using Cons.prems(2) by simp
      moreover from Cons.prems(4) q have "hd (replaceAll p r (c # cs)) = y"
        by (auto simp add: startsWith_iff)
      ultimately show ?thesis using Cons.prems(3) q by simp
    next
      case False
      from replaceAll_skip [OF Cons.prems(1) False]
      have eq: "replaceAll p r (c # cs) = c # replaceAll p r cs" .
      with Cons.prems(4) q have "y = c" "startsWith (replaceAll p r cs) q'"
        by (auto simp add: startsWith_def)
      moreover from Cons.prems(3) q have "hd r \<notin> set q'" by simp
      ultimately show ?thesis
        using Cons.IH [OF Cons.prems(1,2)] q by (auto simp add: startsWith_def)
    qed
  qed
qed

lemma includes_str_drop: "includes_str (drop n t) q \<Longrightarrow> includes_str t q"
proof -
  assume "includes_str (drop n t) q"
  then obtain a b where "drop n t = a @ q @ b" by (auto simp add: includes_str_iff)
  then have "t = (take n t @ a) @ q @ b" by (metis append_take_drop_id append.assoc)
  then show ?thesis unfolding includes_str_iff by blast
qed

lemma replaceAll_keeps_absent:
  assumes "p \<noteq> []" "r \<noteq> []" "q \<noteq> []" "hd q \<notin> set r" "hd r \<notin> set q"
  shows "\<not> includes_str t q \<Longrightarrow> \<not> includes_str (replaceAll p r t) q"
proof (induction t rule: length_induct)
  case (1 t)
  show ?case
  proof (cases t)
    case Nil
    then show ?thesis using assms(1,3) by (simp add: replaceAll_Nil)
  next
    case (Cons c cs)
    show ?thesis
    proof (cases "startsWith t p")
      case True
      have "length (drop (length p) t) < length t"
        using assms(1) Cons by simp
      moreover have "\<not> includes_str (drop (length p) t) q"
        using "1.prems" includes_str_drop by blast
      ultimately have "\<not> includes_str (replaceAll p r (drop (length p) t)) q"
        using "1.IH" by blast
      then have "\<not> includes_str (r @ replaceAll p r (drop (length p) t)) q"
        using includes_str_past [OF assms(3,4)] by blast
      then show ?thesis
        using replaceAll_match [OF assms(1) True] by simp
    next
      case False
      with Cons have eq: "replaceAll p r t = c # replaceAll p r cs"
        using replaceAll_skip [OF assms(1)] by simp
      have "\<not> startsWith (replaceAll p r t) q"
      proof
        assume "startsWith (replaceAll p r t) q"
        from startsWith_replaceAll [OF assms(1,2,5) this]
        have "startsWith t q" .
        then have "includes_str t q" using Cons by simp
        with "1.prems" show False by simp
      qed
      moreover have "\<not> includes_str (replaceAll p r cs) q"
      proof -
        from "1.prems" Cons have "\<not> includes_str cs q" by (auto split: if_splits)
        moreover have "length cs < length t" using Cons by simp
        ultimately show ?thesis using "1.IH" by blast
      qed
      ultimately show ?thesis
        using eq by simp
    qed
  qed
qed

lemma replaceAll_removes:
  assumes "p \<noteq> []" "r \<noteq> []" "hd p \<notin> set r" "hd r \<notin> set p"
  shows "\<not> includes_str (replaceAll p r t) p"
proof (induction t rule: length_induct)
  case (1 t)
  show ?case
  proof (cases t)
    case Nil
    then show ?thesis using assms(1) by (simp add: replaceAll_Nil)
  next
    case (Cons c cs)
    show ?thesis
    proof (cases "startsWith t p")
      case True
      have "length (drop (length p) t) < length t"
        using assms(1) Cons by simp
      then have "\<not> includes_str (replaceAll p r (drop (length p) t)) p"
        using "1.IH" by blast
      then have "\<not> includes_str (r @ replaceAll p r (drop (length p) t)) p"
        using includes_str_past [OF assms(1,3)] by blast
      then show ?thesis
        using replaceAll_match [OF assms(1) True] by simp
    next
      case False
      with Cons have eq: "replaceAll p r t = c # replaceAll p r cs"
        using replaceAll_skip [OF assms(1)] by simp
      have "\<not> startsWith (replaceAll p r t) p"
        using startsWith_replaceAll [OF assms(1,2,4)] False by blast
      moreover have "\<not> includes_str (replaceAll p r cs) p"
        using "1.IH" Cons by simp
      ultimately show ?thesis
        using eq by simp
    qed
  qed
qed

lemma includes_str_suffix_pattern: "includes_str t (a @ q) \<Longrightarrow> includes_str t q"
proof -
  assume "includes_str t (a @ q)"
  then obtain x y where "t = x @ (a @ q) @ y" by (auto simp add: includes_str_iff)
  then have "t = (x @ a) @ q @ y" by simp
  then show ?thesis unfolding includes_str_iff by blast
qed

lemma rewrite_plain:
  assumes "plain_pattern modelActual" "plain_replacement modelDisplay"
  shows "rewrite modelActual modelDisplay chunk =
           Some (replaceAll ''Sonnet'' ''Opus''
                  (replaceAll ''Haiku'' ''Opus''
                    (replaceAll ''claude-3-5-haiku'' modelDisplay
                      (replaceAll ''Claude Code'' ''Claude Opus''
                        (replaceAll modelActual modelDisplay chunk)))))"
proof -
  let ?x = "replaceAll ''Haiku'' ''Opus''
                    (replaceAll ''claude-3-5-haiku'' modelDisplay
                      (replaceAll ''Claude Code'' ''Claude Opus''
                        (replaceAll modelActual modelDisplay chunk)))"
  have "\<not> includes_str (replaceAll ''Sonnet'' ''Opus'' ?x) ''Sonnet''"
    by (rule replaceAll_removes) simp_all
  then have "\<not> includes_str (replaceAll ''Sonnet'' ''Opus'' ?x) (''4.5 '' @ ''Sonnet'')"
    using includes_str_suffix_pattern by blast
  then have "replaceAll ''4.5 Sonnet'' ''4.5 Opus'' (replaceAll ''Sonnet'' ''Opus'' ?x) =
      replaceAll ''Sonnet'' ''Opus'' ?x"
    by (intro replaceAll_no_occurrence) simp_all
  with assms show ?thesis unfolding rewrite_def by simp
qed

lemma rewrite_no_Haiku_Sonnet:
  assumes "rewrite modelActual modelDisplay chunk = Some out"
  shows "\<not> includes_str out ''Haiku'' \<and> \<not> includes_str out ''Sonnet''"
proof -
  from assms have pl: "plain_pattern modelActual" "plain_replacement modelDisplay"
    by (auto simp add: rewrite_def split: if_splits)
  let ?y = "replaceAll ''claude-3-5-haiku'' modelDisplay
                      (replaceAll ''Claude Code'' ''Claude Opus''
                        (replaceAll modelActual modelDisplay chunk))"
  from rewrite_plain [OF pl, of chunk] assms
  have out: "out = replaceAll ''Sonnet'' ''Opus'' (replaceAll ''Haiku'' ''Opus'' ?y)" by simp
  have "\<not> includes_str (replaceAll ''Haiku'' ''Opus'' ?y) ''Haiku''"
    by (rule replaceAll_removes) simp_all
  then have "\<not> includes_str out ''Haiku''"
    unfolding out by (rule replaceAll_keeps_absent [rotated -1]) simp_all
  moreover have "\<not> includes_str out ''Sonnet''"
    unfolding out by (rule replaceAll_removes) simp_all
  ultimately show ?thesis by simp
qed

lemma stream_relay_connected:
  assumes "plain_pattern modelActual" "plain_replacement modelDisplay"
  shows "\<exists>outs. stream_relay modelActual modelDisplay (map (Pair False) chunks) = Some outs
           \<and> list_all2 (\<lambda>chunk out. rewrite modelActual modelDisplay chunk = Some out) chunks outs"
proof (induction chunks)
  case Nil
  then show ?case by simp
next
  case (Cons c cs)
  then obtain outs where "stream_relay modelActual modelDisplay (map (Pair False) cs) = Some outs"
    "list_all2 (\<lambda>chunk out. rewrite modelActual modelDisplay chunk = Some out) cs outs" by blast
  moreover obtain out where "rewrite modelActual modelDisplay c = Some out"
    using assms by (simp add: rewrite_def)
  ultimately show ?case by simp
qed

text \<open>
  Against claim C8 as it is worded: a model id that is split between two chunks of a
  stream reaches the client as it is. And where the display name contains one of the
  fixed phrases, the text that replaces the model id is not the display name: the later
  replacements change it.
\<close>

theorem split_model_id_is_not_replaced:
  "stream_relay ''gpt-x'' ''Public-Model'' [(False, ''model: gp''), (False, ''t-x'')]
     = Some [''model: gp'', ''t-x'']
   \<and> includes_str (concat [''model: gp'', ''t-x'']) ''gpt-x''
   \<and> buffered_relay ''gpt-x'' ''My-Sonnet'' ''model: gpt-x'' = Some ''model: My-Opus''"
  by code_simp


text \<open>
  Claim C8, as the code has it, for a model id without a character that is special in a
  regular expression and a display name without a dollar sign. The rewrite is applied to
  every chunk of a stream on its own, and to the serialised body of a buffered response
  as a whole. On such a text it replaces the model id by the display name, then
  \<open>Claude Code\<close> by \<open>Claude Opus\<close>, \<open>claude-3-5-haiku\<close> by the display name, \<open>Haiku\<close> by
  \<open>Opus\<close> and \<open>Sonnet\<close> by \<open>Opus\<close>, each step on the result of the step before and
  whatever the configured model is (the sixth replacement of the source finds nothing
  left to replace). A replacement leaves a text without the pattern as it is, and
  replaces the first occurrence of the pattern and goes on behind it; so every
  occurrence, from left to right and without overlap, is replaced. No \<open>Haiku\<close> and no
  \<open>Sonnet\<close> is left in what is written.
\<close>

theorem reverse_rewrite_per_chunk:
  assumes "plain_pattern modelActual" "plain_replacement modelDisplay"
  shows "(\<exists>outs. stream_relay modelActual modelDisplay (map (Pair False) chunks) = Some outs
            \<and> list_all2 (\<lambda>chunk out. rewrite modelActual modelDisplay chunk = Some out)
                  chunks outs)
       \<and> buffered_relay modelActual modelDisplay t = rewrite modelActual modelDisplay t
       \<and> rewrite modelActual modelDisplay t =
           Some (replaceAll ''Sonnet'' ''Opus''
                  (replaceAll ''Haiku'' ''Opus''
                    (replaceAll ''claude-3-5-haiku'' modelDisplay
                      (replaceAll ''Claude Code'' ''Claude Opus''
                        (replaceAll modelActual modelDisplay t)))))
       \<and> (\<forall>p r x. p \<noteq> [] \<and> \<not> includes_str x p \<longrightarrow> replaceAll p r x = x)
       \<and> (\<forall>p r a b. p \<noteq> [] \<and> \<not> includes_str (a @ butlast p) p \<longrightarrow>
             replaceAll p r (a @ p @ b) = a @ r @ replaceAll p r b)
       \<and> (\<forall>out. rewrite modelActual modelDisplay t = Some out \<longrightarrow>
             \<not> includes_str out ''Haiku'' \<and> \<not> includes_str out ''Sonnet'')"
proof (intro conjI allI impI)
  show "\<exists>outs. stream_relay modelActual modelDisplay (map (Pair False) chunks) = Some outs
            \<and> list_all2 (\<lambda>chunk out. rewrite modelActual modelDisplay chunk = Some out)
                  chunks outs"
    by (rule stream_relay_connected [OF assms])
  show "buffered_relay modelActual modelDisplay t = rewrite modelActual modelDisplay t"
    by (simp add: buffered_relay_def)
  show "rewrite modelActual modelDisplay t =
           Some (replaceAll ''Sonnet'' ''Opus''
                  (replaceAll ''Haiku'' ''Opus''
                    (replaceAll ''claude-3-5-haiku'' modelDisplay
                      (replaceAll ''Claude Code'' ''Claude Opus''
                        (replaceAll modelActual modelDisplay t)))))"
    by (rule rewrite_plain [OF assms])
next
  fix p r x assume "p \<noteq> [] \<and> \<not> includes_str x p"
  then show "replaceAll p r x = x"
    using replaceAll_no_occurrence by blast
next
  fix p r a b assume "p \<noteq> [] \<and> \<not> includes_str (a @ butlast p) p"
  then show "replaceAll p r (a @ p @ b) = a @ r @ replaceAll p r b"
    using replaceAll_first_occurrence by blast
next
  fix out assume "rewrite modelActual modelDisplay t = Some out"
  then show "\<not> includes_str out ''Haiku''" "\<not> includes_str out ''Sonnet''"
    using rewrite_no_Haiku_Sonnet by blast+
qed

theorem reverse_rewrite_per_chunk_witness:
  "plain_pattern ''gpt-x'' \<and> plain_replacement ''Public-Model''
   \<and> stream_relay ''gpt-x'' ''Public-Model''
        [(False, ''model: gpt-x, by Claude Code''), (False, '' (Sonnet)'')]
      = Some [''model: Public-Model, by Claude Opus'', '' (Opus)'']
   \<and> buffered_relay ''gpt-x'' ''Public-Model'' ''model: gpt-x, a Haiku''
      = Some ''model: Public-Model, a Opus''"
proof -
  have h: "plain_pattern ''gpt-x''" "plain_replacement ''Public-Model''"
    by (simp_all add: plain_pattern_def plain_replacement_def regex_special_def)
  have ev: "rewrite ''gpt-x'' ''Public-Model'' ''model: gpt-x, by Claude Code''
              = Some ''model: Public-Model, by Claude Opus''"
    "rewrite ''gpt-x'' ''Public-Model'' '' (Sonnet)'' = Some '' (Opus)''"
    "rewrite ''gpt-x'' ''Public-Model'' ''model: gpt-x, a Haiku''
              = Some ''model: Public-Model, a Opus''"
    by code_simp+
  from reverse_rewrite_per_chunk [OF h, of "[''model: gpt-x, by Claude Code'', '' (Sonnet)'']"
      "''model: gpt-x, a Haiku''"]
  obtain outs where
    "stream_relay ''gpt-x'' ''Public-Model''
        (map (Pair False) [''model: gpt-x, by Claude Code'', '' (Sonnet)'']) = Some outs"
    "list_all2 (\<lambda>chunk out. rewrite ''gpt-x'' ''Public-Model'' chunk = Some out)
        [''model: gpt-x, by Claude Code'', '' (Sonnet)''] outs"
    and b: "buffered_relay ''gpt-x'' ''Public-Model'' ''model: gpt-x, a Haiku''
        = rewrite ''gpt-x'' ''Public-Model'' ''model: gpt-x, a Haiku''"
    by blast
  then have "stream_relay ''gpt-x'' ''Public-Model''
        [(False, ''model: gpt-x, by Claude Code''), (False, '' (Sonnet)'')]
      = Some [''model: Public-Model, by Claude Opus'', '' (Opus)'']"
    using ev(1,2) by (auto simp only: list_all2_Cons1 list_all2_Nil list.map option.inject)
  with h b ev(3) show ?thesis by simp
qed

end
